theory Spec2Isabelle
  imports Main "HOL-Library.AList" "HOL-Library.Word" "HOL-Library.Sublist"
begin

unbundle bit_operations_syntax

section \<open>Strings\<close>

text \<open>
  A JavaScript string is modelled as a \<^typ>\<open>string\<close> whose characters are read as the
  code points U+0000 to U+00FF (one UTF-16 code unit each, so \<open>length\<close> is the
  JavaScript \<open>.length\<close>). The character classes below are the JavaScript ones cut down
  to that range.
\<close>

definition code :: "char \<Rightarrow> nat" where
  "code c = of_char c"

text \<open>The regular expression class \<open>\s\<close>, which is also what \<open>trim\<close> removes:
  TAB, LF, VT, FF, CR, SPACE and NO-BREAK SPACE.\<close>

definition is_space :: "char \<Rightarrow> bool" where
  "is_space c = (code c = 9 \<or> code c = 10 \<or> code c = 11 \<or> code c = 12 \<or> code c = 13
                 \<or> code c = 32 \<or> code c = 160)"

definition trim :: "string \<Rightarrow> string" where
  "trim s = rev (dropWhile is_space (rev (dropWhile is_space s)))"

text \<open>\<open>toLowerCase\<close>: A to Z, and U+00C0 to U+00DE without the multiplication sign
  U+00D7, move 32 places up.\<close>

definition lower_char :: "char \<Rightarrow> char" where
  "lower_char c =
     (if (65 \<le> code c \<and> code c \<le> 90) \<or> (192 \<le> code c \<and> code c \<le> 222 \<and> code c \<noteq> 215)
      then char_of (code c + 32) else c)"

definition toLowerCase :: "string \<Rightarrow> string" where
  "toLowerCase s = map lower_char s"

text \<open>
  \<open>normalize("NFD")\<close> followed by the removal of the combining marks U+0300 to U+036F.
  In the range modelled, the letters with a canonical decomposition are a base letter
  and one combining mark, so the two steps together leave the base letter; every other
  character is its own decomposition.
\<close>

definition strip_diacritic :: "char \<Rightarrow> char" where
  "strip_diacritic c =
     (let n = code c in
      if 192 \<le> n \<and> n \<le> 197 then CHR ''A''
      else if n = 199 then CHR ''C''
      else if 200 \<le> n \<and> n \<le> 203 then CHR ''E''
      else if 204 \<le> n \<and> n \<le> 207 then CHR ''I''
      else if n = 209 then CHR ''N''
      else if 210 \<le> n \<and> n \<le> 214 then CHR ''O''
      else if 217 \<le> n \<and> n \<le> 220 then CHR ''U''
      else if n = 221 then CHR ''Y''
      else if 224 \<le> n \<and> n \<le> 229 then CHR ''a''
      else if n = 231 then CHR ''c''
      else if 232 \<le> n \<and> n \<le> 235 then CHR ''e''
      else if 236 \<le> n \<and> n \<le> 239 then CHR ''i''
      else if n = 241 then CHR ''n''
      else if 242 \<le> n \<and> n \<le> 246 then CHR ''o''
      else if 249 \<le> n \<and> n \<le> 252 then CHR ''u''
      else if n = 253 \<or> n = 255 then CHR ''y''
      else c)"

text \<open>The class of \<open>.,;:"()!?\<close> and the two guillemets U+00AB and U+00BB.\<close>

definition is_punct :: "char \<Rightarrow> bool" where
  "is_punct c = (c \<in> set ''.,;:()!?'' \<or> code c = 34 \<or> code c = 171 \<or> code c = 187)"

text \<open>\<open>s.split(/\s+/)\<close>: the pieces between the runs of white space; a run at either end
  leaves an empty piece there, and the empty string gives one empty piece.\<close>

function split_spaces :: "string \<Rightarrow> string \<Rightarrow> string list" where
  "split_spaces acc [] = [acc]"
| "split_spaces acc (c # cs) =
     (if is_space c then acc # split_spaces [] (dropWhile is_space cs)
      else split_spaces (acc @ [c]) cs)"
  by pat_completeness auto
termination
  by (relation "measure (\<lambda>(acc, s). length s)")
     (auto simp: length_dropWhile_le le_imp_less_Suc)

text \<open>\<open>s.replace(/\s+/g, ' ')\<close>: every run of white space becomes one space.\<close>

function collapse_spaces :: "string \<Rightarrow> string" where
  "collapse_spaces [] = []"
| "collapse_spaces (c # cs) =
     (if is_space c then CHR '' '' # collapse_spaces (dropWhile is_space cs)
      else c # collapse_spaces cs)"
  by pat_completeness auto
termination
  by (relation "measure length") (auto simp: length_dropWhile_le le_imp_less_Suc)

text \<open>
  \<open>s.replace(/<[^>]+>/g, ' ')\<close>: scanning from the left, a \<open><\<close> followed by at least
  one character other than \<open>>\<close> and then a \<open>>\<close> is replaced by a space, and the scan
  goes on behind it. The class \<open>[^>]\<close> cannot match \<open>>\<close>, so the only run that can be
  followed by \<open>>\<close> is the longest one.
\<close>

function strip_tags :: "string \<Rightarrow> string" where
  "strip_tags [] = []"
| "strip_tags (c # cs) =
     (let run = takeWhile (\<lambda>x. x \<noteq> CHR ''>'') cs;
          rest = dropWhile (\<lambda>x. x \<noteq> CHR ''>'') cs
      in if c = CHR ''<'' \<and> run \<noteq> [] \<and> rest \<noteq> []
         then CHR '' '' # strip_tags (tl rest)
         else c # strip_tags cs)"
  by pat_completeness auto
termination
  by (relation "measure length")
     (auto simp: length_dropWhile_le le_imp_less_Suc less_Suc_eq_le
           intro: le_trans [OF diff_le_self length_dropWhile_le])

section \<open>The search index of \<open>bible_epub_poc.ts\<close>\<close>

text \<open>The fields \<open>id\<close>, \<open>title\<close>, \<open>text\<close> and \<open>html\<close> of \<open>BibleNode\<close>.\<close>

record BibleNode =
  node_id :: string
  node_title :: string
  node_text :: string
  node_html :: string

text \<open>
  The two \<open>Map\<close>s of \<open>EpubSearchEngine\<close>. A JavaScript \<open>Map\<close> iterates in the order
  in which its keys were first set, so each is an association list, written with
  \<^const>\<open>AList.update\<close> (which replaces the value of a key where it stands and appends
  a new key at the end) and read with \<^const>\<open>map_of\<close>.
\<close>

record EpubSearchEngine =
  index :: "(string \<times> string list) list"
  nodes :: "(string \<times> BibleNode) list"

definition new_engine :: EpubSearchEngine where
  "new_engine = \<lparr>index = [], nodes = []\<rparr>"

definition tokenize :: "string \<Rightarrow> string list" where
  "tokenize t =
     filter (\<lambda>w. length w > 2)
       (split_spaces []
          (filter (\<lambda>c. \<not> is_punct c) (map strip_diacritic (toLowerCase t))))"

text \<open>The body of \<open>words.forEach\<close> in \<open>addNode\<close>, for one word.\<close>

definition index_word :: "string \<Rightarrow> string \<Rightarrow> (string \<times> string list) list
    \<Rightarrow> (string \<times> string list) list" where
  "index_word i word idx =
     (let idx1 = (if map_of idx word = None then AList.update word [] idx else idx)
      in case map_of idx1 word of
           None \<Rightarrow> idx1
         | Some ids \<Rightarrow> if i \<in> set ids then idx1 else AList.update word (ids @ [i]) idx1)"

definition addNode :: "string \<Rightarrow> string \<Rightarrow> string \<Rightarrow> EpubSearchEngine \<Rightarrow> EpubSearchEngine" where
  "addNode i ttl h e =
     (let txt = trim (collapse_spaces (strip_tags h));
          nodes1 = AList.update i \<lparr>node_id = i, node_title = ttl, node_text = txt, node_html = h\<rparr> (nodes e);
          words = tokenize txt
      in \<lparr>index = fold (index_word i) words (index e), nodes = nodes1\<rparr>)"

record SearchResult =
  score :: int
  node :: "BibleNode option"

text \<open>The body of \<open>tokens.forEach\<close> in \<open>search\<close>, for one token: every document of
  the token's posting list gets one more point.\<close>

definition count_token :: "(string \<times> string list) list \<Rightarrow> string
    \<Rightarrow> (string \<times> int) list \<Rightarrow> (string \<times> int) list" where
  "count_token idx token results =
     (let matches = (case map_of idx token of None \<Rightarrow> [] | Some ids \<Rightarrow> ids)
      in fold (\<lambda>i res. AList.update i ((case map_of res i of None \<Rightarrow> 0 | Some n \<Rightarrow> n) + 1) res)
           matches results)"

text \<open>
  \<open>Array.prototype.sort\<close> is stable, and the comparator \<open>b[1] - a[1]\<close> orders by
  falling score: a stable insertion sort on the negated score. The node of a result
  is \<open>this.nodes.get(id)\<close>, which is \<open>undefined\<close> (\<open>None\<close>) for an unknown id.
\<close>

definition search :: "string \<Rightarrow> EpubSearchEngine \<Rightarrow> SearchResult list" where
  "search query e =
     (let tokens = tokenize query
      in if tokens = [] then []
         else let results = fold (count_token (index e)) tokens []
              in map (\<lambda>(i, s). \<lparr>score = s, node = map_of (nodes e) i\<rparr>)
                   (sort_key (\<lambda>(i, s). - s) results))"

section \<open>Key derivation: \<open>services/crypto.ts\<close>\<close>

type_synonym byte = "8 word"
type_synonym u32 = "32 word"

subsection \<open>The platform: \<open>TextEncoder\<close>, SHA-256 and \<open>atob\<close>\<close>

text \<open>
  \<open>new TextEncoder().encode(text)\<close>: UTF-8. A code point below U+0080 is one byte,
  the others of the range modelled are two.
\<close>

definition utf8_char :: "char \<Rightarrow> byte list" where
  "utf8_char c =
     (if code c < 128 then [of_nat (code c)]
      else [of_nat (192 + code c div 64), of_nat (128 + code c mod 64)])"

definition encode :: "string \<Rightarrow> byte list" where
  "encode s = concat (map utf8_char s)"

text \<open>
  \<open>crypto.subtle.digest('SHA-256', data)\<close> is the hash function of FIPS 180-4,
  written out here: the message is padded to whole blocks of 64 bytes, each block is
  read as sixteen big-endian words and extended to a schedule of sixty-four, and
  sixty-four rounds update eight working words.
\<close>

definition K256 :: "u32 list" where
  "K256 =
     [0x428A2F98, 0x71374491, 0xB5C0FBCF, 0xE9B5DBA5, 0x3956C25B, 0x59F111F1,
      0x923F82A4, 0xAB1C5ED5, 0xD807AA98, 0x12835B01, 0x243185BE, 0x550C7DC3,
      0x72BE5D74, 0x80DEB1FE, 0x9BDC06A7, 0xC19BF174, 0xE49B69C1, 0xEFBE4786,
      0x0FC19DC6, 0x240CA1CC, 0x2DE92C6F, 0x4A7484AA, 0x5CB0A9DC, 0x76F988DA,
      0x983E5152, 0xA831C66D, 0xB00327C8, 0xBF597FC7, 0xC6E00BF3, 0xD5A79147,
      0x06CA6351, 0x14292967, 0x27B70A85, 0x2E1B2138, 0x4D2C6DFC, 0x53380D13,
      0x650A7354, 0x766A0ABB, 0x81C2C92E, 0x92722C85, 0xA2BFE8A1, 0xA81A664B,
      0xC24B8B70, 0xC76C51A3, 0xD192E819, 0xD6990624, 0xF40E3585, 0x106AA070,
      0x19A4C116, 0x1E376C08, 0x2748774C, 0x34B0BCB5, 0x391C0CB3, 0x4ED8AA4A,
      0x5B9CCA4F, 0x682E6FF3, 0x748F82EE, 0x78A5636F, 0x84C87814, 0x8CC70208,
      0x90BEFFFA, 0xA4506CEB, 0xBEF9A3F7, 0xC67178F2]"

type_synonym sha_state = "u32 \<times> u32 \<times> u32 \<times> u32 \<times> u32 \<times> u32 \<times> u32 \<times> u32"

definition H256 :: sha_state where
  "H256 = (0x6A09E667, 0xBB67AE85, 0x3C6EF372, 0xA54FF53A,
           0x510E527F, 0x9B05688C, 0x1F83D9AB, 0x5BE0CD19)"

definition rotr :: "nat \<Rightarrow> u32 \<Rightarrow> u32" where
  "rotr n x = drop_bit n x OR push_bit (32 - n) x"

definition Ch :: "u32 \<Rightarrow> u32 \<Rightarrow> u32 \<Rightarrow> u32" where
  "Ch x y z = (x AND y) XOR (NOT x AND z)"

definition Maj :: "u32 \<Rightarrow> u32 \<Rightarrow> u32 \<Rightarrow> u32" where
  "Maj x y z = (x AND y) XOR (x AND z) XOR (y AND z)"

definition Sum0 :: "u32 \<Rightarrow> u32" where
  "Sum0 x = rotr 2 x XOR rotr 13 x XOR rotr 22 x"

definition Sum1 :: "u32 \<Rightarrow> u32" where
  "Sum1 x = rotr 6 x XOR rotr 11 x XOR rotr 25 x"

definition sig0 :: "u32 \<Rightarrow> u32" where
  "sig0 x = rotr 7 x XOR rotr 18 x XOR drop_bit 3 x"

definition sig1 :: "u32 \<Rightarrow> u32" where
  "sig1 x = rotr 17 x XOR rotr 19 x XOR drop_bit 10 x"

definition be64 :: "nat \<Rightarrow> byte list" where
  "be64 n = (let w = (of_nat n :: 64 word) in map (\<lambda>i. ucast (drop_bit (8 * (7 - i)) w)) [0..<8])"

definition sha_pad :: "byte list \<Rightarrow> byte list" where
  "sha_pad m = m @ [0x80] @ replicate ((119 - length m mod 64) mod 64) 0 @ be64 (8 * length m)"

definition be32 :: "byte list \<Rightarrow> u32" where
  "be32 bs = foldl (\<lambda>w b. push_bit 8 w OR ucast b) 0 bs"

definition block_words :: "byte list \<Rightarrow> u32 list" where
  "block_words blk = map (\<lambda>j. be32 (take 4 (drop (4 * j) blk))) [0..<16]"

text \<open>The schedule is built sixteen words at a time behind a window: the word
  \<open>W\<^sub>t\<close> is made from the first, second, tenth and fifteenth of the sixteen before it.\<close>

fun schedule :: "nat \<Rightarrow> u32 list \<Rightarrow> u32 list" where
  "schedule 0 w = []"
| "schedule (Suc n) w =
     (case w of
        w0 # w1 # _ \<Rightarrow>
          (let x = sig1 (w ! 14) + w ! 9 + sig0 w1 + w0
           in w0 # schedule n (tl w @ [x]))
      | _ \<Rightarrow> [])"

definition round256 :: "sha_state \<Rightarrow> u32 \<times> u32 \<Rightarrow> sha_state" where
  "round256 s kw =
     (case s of (a, b, c, d, e, f, g, h) \<Rightarrow>
        (let t1 = h + Sum1 e + Ch e f g + fst kw + snd kw;
             t2 = Sum0 a + Maj a b c
         in (t1 + t2, a, b, c, d + t1, e, f, g)))"

definition add_state :: "sha_state \<Rightarrow> sha_state \<Rightarrow> sha_state" where
  "add_state s t =
     (case s of (a, b, c, d, e, f, g, h) \<Rightarrow>
      case t of (a', b', c', d', e', f', g', h') \<Rightarrow>
        (a + a', b + b', c + c', d + d', e + e', f + f', g + g', h + h'))"

definition compress :: "sha_state \<Rightarrow> byte list \<Rightarrow> sha_state" where
  "compress s blk = add_state s (foldl round256 s (zip K256 (schedule 64 (block_words blk))))"

definition word_bytes :: "u32 \<Rightarrow> byte list" where
  "word_bytes w = [ucast (drop_bit 24 w), ucast (drop_bit 16 w), ucast (drop_bit 8 w), ucast w]"

definition state_bytes :: "sha_state \<Rightarrow> byte list" where
  "state_bytes s =
     (case s of (a, b, c, d, e, f, g, h) \<Rightarrow>
        word_bytes a @ word_bytes b @ word_bytes c @ word_bytes d
        @ word_bytes e @ word_bytes f @ word_bytes g @ word_bytes h)"

definition sha256 :: "byte list \<Rightarrow> byte list" where
  "sha256 m =
     (let p = sha_pad m
      in state_bytes
           (foldl compress H256 (map (\<lambda>i. take 64 (drop (64 * i) p)) [0..<length p div 64])))"

definition generateSHA256 :: "string \<Rightarrow> byte list" where
  "generateSHA256 t = sha256 (encode t)"



text \<open>
  \<open>atob\<close>, the forgiving base64 decoder of the HTML standard: ASCII white space is
  dropped, one or two \<open>=\<close> at the end of a text of whole groups of four are dropped,
  a text of length 1 modulo 4 or with a character outside the alphabet is refused
  (\<open>None\<close>: the call throws), and every four characters give three bytes. The result
  is a string of the characters U+0000 to U+00FF.
\<close>

definition b64_val :: "char \<Rightarrow> nat option" where
  "b64_val c =
     (let n = code c in
      if 65 \<le> n \<and> n \<le> 90 then Some (n - 65)
      else if 97 \<le> n \<and> n \<le> 122 then Some (n - 71)
      else if 48 \<le> n \<and> n \<le> 57 then Some (n + 4)
      else if c = CHR ''+'' then Some 62
      else if c = CHR ''/'' then Some 63
      else None)"

fun b64_groups :: "nat list \<Rightarrow> nat list" where
  "b64_groups (a # b # c # d # r) =
     (a * 4 + b div 16) # ((b mod 16) * 16 + c div 4) # ((c mod 4) * 64 + d) # b64_groups r"
| "b64_groups [a, b, c] = [a * 4 + b div 16, (b mod 16) * 16 + c div 4]"
| "b64_groups [a, b] = [a * 4 + b div 16]"
| "b64_groups r = []"

definition strip_padding :: "string \<Rightarrow> string" where
  "strip_padding t =
     (if length t mod 4 = 0 then
        (case rev t of
           x # y # r \<Rightarrow>
             if x = CHR ''='' \<and> y = CHR ''='' then rev r
             else if x = CHR ''='' then rev (y # r) else t
         | _ \<Rightarrow> t)
      else t)"

definition atob :: "string \<Rightarrow> string option" where
  "atob s =
     (let t = strip_padding (filter (\<lambda>c. c \<notin> set [CHR 0x09, CHR 0x0A, CHR 0x0C, CHR 0x0D, CHR '' '']) s)
      in if length t mod 4 = 1 then None
         else map_option (\<lambda>vs. map char_of (b64_groups vs)) (those (map b64_val t)))"

subsection \<open>The methods of \<open>CryptoService\<close>\<close>

definition is_hex :: "char \<Rightarrow> bool" where
  "is_hex c = ((48 \<le> code c \<and> code c \<le> 57) \<or> (65 \<le> code c \<and> code c \<le> 70)
               \<or> (97 \<le> code c \<and> code c \<le> 102))"

definition hex_val :: "char \<Rightarrow> nat" where
  "hex_val c =
     (if 48 \<le> code c \<and> code c \<le> 57 then code c - 48
      else if 65 \<le> code c \<and> code c \<le> 70 then code c - 55
      else code c - 87)"

text \<open>\<open>parseInt(s, 16)\<close> on a string of hexadecimal digits (\<open>hexToBytes\<close> has removed
  every other character before it calls it).\<close>

definition parseInt16 :: "string \<Rightarrow> nat" where
  "parseInt16 s = foldl (\<lambda>a c. 16 * a + hex_val c) 0 s"

text \<open>
  \<open>hexToBytes\<close>. The array has \<open>clean.length / 2\<close> elements, which the typed array
  constructor rounds down; element \<open>i\<close> is the value of the two digits at \<open>2 i\<close>,
  stored modulo 256.
\<close>

definition hexToBytes :: "string \<Rightarrow> byte list" where
  "hexToBytes hex =
     (let clean = filter is_hex hex
      in map (\<lambda>i. of_nat (parseInt16 (take 2 (drop (i * 2) clean)))) [0..<length clean div 2])"

definition hex_digit :: "nat \<Rightarrow> char" where
  "hex_digit d = (if d < 10 then char_of (48 + d) else char_of (87 + d))"

text \<open>\<open>b.toString(16)\<close> of a number from 0 to 255, and \<open>padStart\<close>.\<close>

definition toString16 :: "nat \<Rightarrow> string" where
  "toString16 n = (if n < 16 then [hex_digit n] else [hex_digit (n div 16), hex_digit (n mod 16)])"

definition padStart :: "nat \<Rightarrow> char \<Rightarrow> string \<Rightarrow> string" where
  "padStart n c s = replicate (n - length s) c @ s"

definition bytesToHex :: "byte list \<Rightarrow> string" where
  "bytesToHex bytes = concat (map (\<lambda>b. padStart 2 CHR ''0'' (toString16 (unat b))) bytes)"

text \<open>
  \<open>xorBuffers\<close>: \<open>buf1.map((byte, i) => byte ^ buf2[i % buf2.length])\<close>. With an empty
  \<open>buf2\<close> the index is \<open>NaN\<close>, the element \<open>undefined\<close>, and \<open>byte ^ undefined\<close> is
  \<open>byte\<close>.
\<close>

definition xorBuffers :: "byte list \<Rightarrow> byte list \<Rightarrow> byte list" where
  "xorBuffers buf1 buf2 =
     map (\<lambda>i. if buf2 = [] then buf1 ! i else buf1 ! i XOR buf2 ! (i mod length buf2))
       [0..<length buf1]"

text \<open>\<open>s.slice(a, b)\<close> for \<open>0 \<le> a \<le> b\<close>.\<close>

definition slice :: "nat \<Rightarrow> nat \<Rightarrow> string \<Rightarrow> string" where
  "slice a b s = take (b - a) (drop a s)"

datatype crypto_error = InvalidCharacterError

record DerivedSecret =
  key :: string
  iv :: string

definition masterKeyBase64 :: string where
  "masterKeyBase64 =
     ''MTFjYmI1NTg3ZTMyODQ2ZDRjMjY3OTBjNjMzZGEyODlmNjZmZTU4NDJhM2E1ODVjZTFiYzNhMjk0YWY1YWRhNw==''"

definition getDeriveKeyAndIv :: "string \<Rightarrow> crypto_error + DerivedSecret" where
  "getDeriveKeyAndIv pubCard =
     (case atob masterKeyBase64 of
        None \<Rightarrow> Inl InvalidCharacterError
      | Some masterKeyHex \<Rightarrow>
          (let hashBytes = generateSHA256 pubCard;
               keyBytes = hexToBytes masterKeyHex;
               xored = xorBuffers hashBytes keyBytes;
               fullKeyHex = bytesToHex xored
           in Inr \<lparr>key = slice 0 32 fullKeyHex, iv = slice 32 64 fullKeyHex\<rparr>))"


definition master_key :: "byte list" where
  "master_key =
     [0x11, 0xcb, 0xb5, 0x58, 0x7e, 0x32, 0x84, 0x6d, 0x4c, 0x26, 0x79, 0x0c, 0x63, 0x3d, 0xa2, 0x89,
      0xf6, 0x6f, 0xe5, 0x84, 0x2a, 0x3a, 0x58, 0x5c, 0xe1, 0xbc, 0x3a, 0x29, 0x4a, 0xf5, 0xad, 0xa7]"

text \<open>The claim's description of the result: the digest of the UTF-8 text, XORed byte
  for byte with the master key.\<close>

definition derived_bytes :: "string \<Rightarrow> byte list" where
  "derived_bytes pubCard = map2 (XOR) (sha256 (encode pubCard)) master_key"

subsection \<open>\<open>decryptAndInflate\<close>\<close>

text \<open>
  \<open>decryptAndInflate\<close> is three library calls in a row, with no \<open>try\<close> around them:
  \<open>crypto.subtle.importKey\<close> and \<open>crypto.subtle.decrypt\<close> with \<open>AES-CBC\<close>, \<open>inflate\<close>
  of pako, and \<open>TextDecoder.decode\<close>. An exception of any of them ends the function
  and is the exception of the function. None of the libraries is under \<open>src/\<close>; the
  two kinds of failure are named as the specification names them.
\<close>

datatype decrypt_error = CryptoError | InflateError

text \<open>Modelled from the spec: \<open>crypto.subtle.importKey\<close> for \<open>AES-CBC\<close>, which is not
  in the repository. The cipher is AES with a 128-bit key; the platform also takes
  keys of 192 and 256 bits and refuses every other length.\<close>

definition importKey :: "byte list \<Rightarrow> decrypt_error + byte list" where
  "importKey raw =
     (if length raw = 16 \<or> length raw = 24 \<or> length raw = 32 then Inr raw else Inl CryptoError)"

text \<open>
  Modelled from the spec: \<open>crypto.subtle.decrypt\<close> with \<open>AES-CBC\<close>, which is not in the
  repository. It decrypts in CBC mode with the IV and PKCS#7 padding, and fails with
  \<open>CryptoError\<close> if the cipher length is not block-aligned or decryption produces
  invalid padding. Written out: the IV has 16 bytes and the ciphertext is a whole
  number of blocks of 16 bytes, or the call fails; each block is deciphered and XORed
  with the block before it (the IV for the first); the last byte \<open>n\<close> of the result
  must be from 1 to 16 and the last \<open>n\<close> bytes must all be \<open>n\<close>, or the call fails;
  the result is what stands before the padding. The block cipher itself (the AES
  inverse cipher under the key) is the parameter \<open>cipher\<close>: nothing here depends on
  what it computes.
\<close>

definition blocks16 :: "byte list \<Rightarrow> byte list list" where
  "blocks16 data = map (\<lambda>i. take 16 (drop (i * 16) data)) [0..<length data div 16]"

fun cbc_chain :: "(byte list \<Rightarrow> byte list) \<Rightarrow> byte list \<Rightarrow> byte list list \<Rightarrow> byte list" where
  "cbc_chain d prev [] = []"
| "cbc_chain d prev (c # cs) = map2 (XOR) (d c) prev @ cbc_chain d c cs"

definition cbc_plaintext ::
  "(byte list \<Rightarrow> byte list \<Rightarrow> byte list) \<Rightarrow> byte list \<Rightarrow> byte list \<Rightarrow> byte list \<Rightarrow> byte list" where
  "cbc_plaintext cipher k iv0 data = cbc_chain (cipher k) iv0 (blocks16 data)"

definition unpad :: "byte list \<Rightarrow> byte list option" where
  "unpad p =
     (case rev p of
        [] \<Rightarrow> None
      | l # _ \<Rightarrow>
          (let n = unat l
           in if 1 \<le> n \<and> n \<le> 16 \<and> n \<le> length p \<and> drop (length p - n) p = replicate n l
              then Some (take (length p - n) p)
              else None))"

definition subtle_decrypt ::
  "(byte list \<Rightarrow> byte list \<Rightarrow> byte list) \<Rightarrow> byte list \<Rightarrow> byte list \<Rightarrow> byte list
     \<Rightarrow> decrypt_error + byte list" where
  "subtle_decrypt cipher iv0 k data =
     (if length iv0 = 16 \<and> length data mod 16 = 0
      then (case unpad (cbc_plaintext cipher k iv0 data) of
              None \<Rightarrow> Inl CryptoError
            | Some plain \<Rightarrow> Inr plain)
      else Inl CryptoError)"

text \<open>
  \<open>decryptAndInflate\<close>, as the source sequences the calls. Modelled from the spec:
  the decompressor \<open>inflate\<close> of pako and the UTF-8 decoder, which are not in the
  repository, are the parameters \<open>inflate\<close> (\<open>None\<close> when decompression finds corrupt
  compressed data and fails with \<open>InflateError\<close>) and \<open>decode\<close> (which never fails).
\<close>

definition decryptAndInflate ::
  "(byte list \<Rightarrow> byte list \<Rightarrow> byte list) \<Rightarrow> (byte list \<Rightarrow> byte list option) \<Rightarrow> (byte list \<Rightarrow> string)
     \<Rightarrow> byte list \<Rightarrow> string \<Rightarrow> string \<Rightarrow> decrypt_error + string" where
  "decryptAndInflate cipher inflate decode data keyHex ivHex =
     (case importKey (hexToBytes keyHex) of
        Inl e \<Rightarrow> Inl e
      | Inr cryptoKey \<Rightarrow>
          (case subtle_decrypt cipher (hexToBytes ivHex) cryptoKey data of
             Inl e \<Rightarrow> Inl e
           | Inr decrypted \<Rightarrow>
               (case inflate decrypted of
                  None \<Rightarrow> Inl InflateError
                | Some decompressed \<Rightarrow> Inr (decode decompressed))))"

text \<open>What the claim calls valid PKCS#7 padding: \<open>p\<close> is \<open>body\<close> followed by \<open>n\<close> bytes
  of value \<open>n\<close>, for an \<open>n\<close> from 1 to 16.\<close>

definition pkcs7_padded :: "byte list \<Rightarrow> byte list \<Rightarrow> bool" where
  "pkcs7_padded body p = (\<exists>n. 1 \<le> n \<and> n \<le> 16 \<and> p = body @ replicate n (of_nat n))"

text \<open>Stand-ins for the three library functions, to run \<open>decryptAndInflate\<close> on a
  concrete input: a cipher that XORs the block with the key, an inflater that accepts
  a stream with the zlib header byte \<open>0x78\<close> and gives the rest, and a decoder for
  ASCII.\<close>

definition sample_cipher :: "byte list \<Rightarrow> byte list \<Rightarrow> byte list" where
  "sample_cipher k block = map2 (XOR) block k"

definition sample_inflate :: "byte list \<Rightarrow> byte list option" where
  "sample_inflate p = (case p of [] \<Rightarrow> None | b # rest \<Rightarrow> if b = 0x78 then Some rest else None)"

definition sample_decode :: "byte list \<Rightarrow> string" where
  "sample_decode bs = map (\<lambda>b. char_of (unat b)) bs"

text \<open>A key, an IV of zeros, and the one block that the sample cipher turns into the
  bytes \<open>0x78\<close>, \<open>H\<close>, \<open>i\<close> and thirteen bytes of padding.\<close>

definition sample_keyHex :: string where
  "sample_keyHex = ''000102030405060708090a0b0c0d0e0f''"

definition sample_ivHex :: string where
  "sample_ivHex = ''00000000000000000000000000000000''"

definition sample_ciphertext :: "byte list" where
  "sample_ciphertext =
     [0x78, 0x49, 0x6b, 0x0e, 0x09, 0x08, 0x0b, 0x0a, 0x05, 0x04, 0x07, 0x06, 0x01, 0x00, 0x03, 0x02]"

section \<open>Discovery: \<open>DiscoveryService.discover\<close>\<close>

subsection \<open>Values read from the response\<close>

text \<open>
  What \<open>response.json()\<close> gives, and what the property reads of \<open>discover\<close> give on
  it: the values of JSON, \<open>undefined\<close>, and the built-in functions and objects that a
  read finds on a prototype. An object is the list of its own properties. Only whether
  a number is zero is ever looked at, so numbers are integers.
\<close>

datatype jsval =
  Undefined | Null | Bool bool | Num int | Str string
  | Arr "jsval list" | Obj "(string \<times> jsval) list" | Builtin string

datatype js_error = TypeError | SyntaxError | FetchError

definition nullish :: "jsval \<Rightarrow> bool" where
  "nullish v = (v = Undefined \<or> v = Null)"

definition truthy :: "jsval \<Rightarrow> bool" where
  "truthy v =
     (case v of
        Undefined \<Rightarrow> False | Null \<Rightarrow> False | Bool b \<Rightarrow> b
      | Num n \<Rightarrow> n \<noteq> 0 | Str s \<Rightarrow> s \<noteq> [] | Arr _ \<Rightarrow> True | Obj _ \<Rightarrow> True
      | Builtin _ \<Rightarrow> True)"

text \<open>\<open>String(n)\<close> of a natural number: its decimal digits.\<close>

function show_nat :: "nat \<Rightarrow> string" where
  "show_nat n = (if n < 10 then [char_of (48 + n)] else show_nat (n div 10) @ [char_of (48 + n mod 10)])"
  by pat_completeness auto
termination
  by (relation "measure id") auto

text \<open>
  A property read \<open>v[name]\<close> looks among the properties of the value itself and then
  along its prototype chain. The names below are the properties with a string name
  of \<open>Object.prototype\<close>, which every value read here inherits, and those that
  \<open>Array.prototype\<close>, \<open>String.prototype\<close> and \<open>Number.prototype\<close> add to them, as
  ECMAScript 2024 lists them (with its annex of legacy names); \<open>Boolean.prototype\<close>
  adds none. What is found there is a function, or for \<open>__proto__\<close> the prototype
  itself: a \<^const>\<open>Builtin\<close>, which is truthy.
\<close>

definition object_prototype :: "string list" where
  "object_prototype =
     [''constructor'', ''hasOwnProperty'', ''isPrototypeOf'', ''propertyIsEnumerable'',
      ''toLocaleString'', ''toString'', ''valueOf'', ''__proto__'', ''__defineGetter__'',
      ''__defineSetter__'', ''__lookupGetter__'', ''__lookupSetter__'']"

definition array_prototype :: "string list" where
  "array_prototype =
     [''at'', ''concat'', ''copyWithin'', ''entries'', ''every'', ''fill'', ''filter'', ''find'',
      ''findIndex'', ''findLast'', ''findLastIndex'', ''flat'', ''flatMap'', ''forEach'',
      ''includes'', ''indexOf'', ''join'', ''keys'', ''lastIndexOf'', ''map'', ''pop'', ''push'',
      ''reduce'', ''reduceRight'', ''reverse'', ''shift'', ''slice'', ''some'', ''sort'',
      ''splice'', ''toReversed'', ''toSorted'', ''toSpliced'', ''unshift'', ''values'', ''with'']"

definition string_prototype :: "string list" where
  "string_prototype =
     [''at'', ''charAt'', ''charCodeAt'', ''codePointAt'', ''concat'', ''endsWith'', ''includes'',
      ''indexOf'', ''isWellFormed'', ''lastIndexOf'', ''localeCompare'', ''match'', ''matchAll'',
      ''normalize'', ''padEnd'', ''padStart'', ''repeat'', ''replace'', ''replaceAll'', ''search'',
      ''slice'', ''split'', ''startsWith'', ''substring'', ''toLocaleLowerCase'',
      ''toLocaleUpperCase'', ''toLowerCase'', ''toUpperCase'', ''toWellFormed'', ''trim'',
      ''trimEnd'', ''trimStart'', ''substr'', ''anchor'', ''big'', ''blink'', ''bold'', ''fixed'',
      ''fontcolor'', ''fontsize'', ''italics'', ''link'', ''small'', ''strike'', ''sub'', ''sup'',
      ''trimLeft'', ''trimRight'']"

definition number_prototype :: "string list" where
  "number_prototype = [''toExponential'', ''toFixed'', ''toPrecision'']"

definition inherited :: "string list \<Rightarrow> string \<Rightarrow> jsval" where
  "inherited proto name =
     (if name \<in> set proto \<or> name \<in> set object_prototype then Builtin name else Undefined)"

text \<open>The elements of an array and the characters of a string are own properties
  under the decimal names of their indices, and the number of them is the own
  property \<open>length\<close>.\<close>

definition own_index :: "string \<Rightarrow> nat \<Rightarrow> nat option" where
  "own_index name n = find (\<lambda>i. show_nat i = name) [0..<n]"

text \<open>\<open>v[name]\<close> and \<open>v[0]\<close> on a value that is neither \<open>null\<close> nor \<open>undefined\<close>. Of a
  built-in only \<open>JWPUB\<close> and \<open>EPUB\<close> are ever read, and no built-in has a property of
  either name.\<close>

definition member :: "string \<Rightarrow> jsval \<Rightarrow> jsval" where
  "member name v =
     (case v of
        Obj ps \<Rightarrow> (case map_of ps name of None \<Rightarrow> inherited [] name | Some x \<Rightarrow> x)
      | Arr xs \<Rightarrow>
          (case own_index name (length xs) of
             Some i \<Rightarrow> xs ! i
           | None \<Rightarrow> if name = ''length'' then Num (int (length xs))
                     else inherited array_prototype name)
      | Str s \<Rightarrow>
          (case own_index name (length s) of
             Some i \<Rightarrow> Str [s ! i]
           | None \<Rightarrow> if name = ''length'' then Num (int (length s))
                     else inherited string_prototype name)
      | Num n \<Rightarrow> inherited number_prototype name
      | Bool b \<Rightarrow> inherited [] name
      | _ \<Rightarrow> Undefined)"

definition element0 :: "jsval \<Rightarrow> jsval" where
  "element0 v = member ''0'' v"

text \<open>\<open>v.name\<close> throws a \<open>TypeError\<close> on \<open>null\<close> and \<open>undefined\<close>; \<open>v?.name\<close> and
  \<open>v?.[0]\<close> give \<open>undefined\<close> there; \<open>a || b\<close> is \<open>a\<close> when \<open>a\<close> is truthy.\<close>

definition get_prop :: "string \<Rightarrow> jsval \<Rightarrow> js_error + jsval" where
  "get_prop name v = (if nullish v then Inl TypeError else Inr (member name v))"

definition opt_prop :: "string \<Rightarrow> jsval \<Rightarrow> jsval" where
  "opt_prop name v = (if nullish v then Undefined else member name v)"

definition opt_element0 :: "jsval \<Rightarrow> jsval" where
  "opt_element0 v = (if nullish v then Undefined else element0 v)"

definition or_else :: "jsval \<Rightarrow> jsval \<Rightarrow> jsval" where
  "or_else a b = (if truthy a then a else b)"

subsection \<open>The loop\<close>

text \<open>
  What \<open>await fetch(url)\<close> and \<open>await response.json()\<close> can give: the promise of
  \<open>fetch\<close> rejects (\<open>NetworkError\<close>), or there is a response with a status and a body
  that parses as JSON (\<open>Some\<close>) or does not (\<open>None\<close>: \<open>json()\<close> rejects).
\<close>

datatype response = NetworkError | Response nat "jsval option"

record DiscoveredPublication =
  pub :: string
  issue :: string
  language :: string
  jwpubUrl :: jsval
  epubUrl :: jsval

text \<open>
  The variables of \<open>discover\<close>. The field \<open>fetched\<close> is not a variable of the source:
  it counts the calls of \<open>fetch\<close> made so far, and the network answers the call number
  \<open>n\<close> with \<open>net n\<close>. Since \<open>net\<close> is arbitrary, this covers every way the answers
  can depend on the URLs asked for.
\<close>

record discover_state =
  discovered :: "DiscoveredPublication list"
  currentMonth :: nat
  currentYear :: nat
  notFoundCount :: nat
  fetched :: nat

definition issueDate_of :: "nat \<Rightarrow> nat \<Rightarrow> string" where
  "issueDate_of y m = show_nat y @ padStart 2 CHR ''0'' (show_nat m)"

definition maxNotFound :: nat where
  "maxNotFound = 1"

text \<open>The body of the \<open>try\<close>: \<open>Inl\<close> is an exception, which the \<open>catch\<close> receives.\<close>

definition try_block :: "string \<Rightarrow> string \<Rightarrow> response \<Rightarrow> discover_state \<Rightarrow> js_error + discover_state" where
  "try_block p lang resp st =
     (case resp of
        NetworkError \<Rightarrow> Inl FetchError
      | Response status body \<Rightarrow>
          if status = 200 then
            (case body of
               None \<Rightarrow> Inl SyntaxError
             | Some data \<Rightarrow>
                 (case get_prop ''files'' data of
                    Inl e \<Rightarrow> Inl e
                  | Inr files \<Rightarrow>
                      (let langData = opt_prop lang files;
                           st1 =
                             (if truthy langData then
                                st\<lparr>discovered := discovered st @
                                  [\<lparr>pub = p,
                                    issue = issueDate_of (currentYear st) (currentMonth st),
                                    language = lang,
                                    jwpubUrl =
                                      or_else
                                        (opt_prop ''url'' (opt_prop ''file''
                                           (opt_element0 (member ''JWPUB'' langData))))
                                        (opt_prop ''url'' (opt_element0 (member ''JWPUB'' langData))),
                                    epubUrl =
                                      or_else
                                        (opt_prop ''url'' (opt_prop ''file''
                                           (opt_element0 (member ''EPUB'' langData))))
                                        (opt_prop ''url'' (opt_element0 (member ''EPUB'' langData)))\<rparr>]\<rparr>
                              else st)
                       in Inr (st1\<lparr>notFoundCount := 0\<rparr>))))
          else if status = 404 then Inr (st\<lparr>notFoundCount := notFoundCount st + 1\<rparr>)
          else Inr (st\<lparr>notFoundCount := notFoundCount st + 1\<rparr>))"

text \<open>The step to the next issue, at the end of the loop body.\<close>

definition advance :: "string \<Rightarrow> discover_state \<Rightarrow> discover_state" where
  "advance p st =
     (let st1 = (if p = ''mwb'' then st\<lparr>currentMonth := currentMonth st + 2\<rparr>
                 else st\<lparr>currentMonth := currentMonth st + 1\<rparr>)
      in if currentMonth st1 > 12
         then st1\<lparr>currentMonth := currentMonth st1 - 12, currentYear := currentYear st1 + 1\<rparr>
         else st1)"

definition loop_body :: "string \<Rightarrow> string \<Rightarrow> (nat \<Rightarrow> response) \<Rightarrow> discover_state \<Rightarrow> discover_state" where
  "loop_body p lang net st =
     (let st1 = (case try_block p lang (net (fetched st)) st of
                   Inl e \<Rightarrow> st\<lparr>notFoundCount := notFoundCount st + 1\<rparr>
                 | Inr st' \<Rightarrow> st')
      in advance p (st1\<lparr>fetched := fetched st + 1\<rparr>))"

text \<open>\<open>while (notFoundCount < maxNotFound)\<close>. The loop need not end: \<open>None\<close> is a run
  that never returns.\<close>

partial_function (option) discover_loop ::
  "nat \<Rightarrow> string \<Rightarrow> string \<Rightarrow> (nat \<Rightarrow> response) \<Rightarrow> discover_state \<Rightarrow> discover_state option" where
  "discover_loop mx p lang net st =
     (if notFoundCount st < mx then discover_loop mx p lang net (loop_body p lang net st)
      else Some st)"

declare discover_loop.simps [code]

text \<open>
  The state before the loop. \<open>now_month\<close> is \<open>now.getMonth()\<close>, from 0 to 11; the year
  is set to 2025; for \<open>mwb\<close> an even month moves back to the odd one before it.
\<close>

definition initial_state :: "string \<Rightarrow> nat \<Rightarrow> discover_state" where
  "initial_state p now_month =
     (let m = now_month + 1
      in \<lparr>discovered = [],
          currentMonth = (if p = ''mwb'' \<and> m mod 2 = 0 then m - 1 else m),
          currentYear = 2025,
          notFoundCount = 0,
          fetched = 0\<rparr>)"

definition discover_run :: "string \<Rightarrow> string \<Rightarrow> nat \<Rightarrow> (nat \<Rightarrow> response) \<Rightarrow> discover_state option" where
  "discover_run p lang now_month net =
     discover_loop maxNotFound p lang net (initial_state p now_month)"

definition discover :: "string \<Rightarrow> string \<Rightarrow> nat \<Rightarrow> (nat \<Rightarrow> response) \<Rightarrow> DiscoveredPublication list option" where
  "discover p lang now_month net = map_option discovered (discover_run p lang now_month net)"


subsection \<open>What the claims say about a run\<close>

text \<open>A response takes the success branch of the loop body (which sets the counter to
  zero) when its status is 200 and its body is JSON other than \<open>null\<close>; every other
  response, and a rejected \<open>fetch\<close>, adds one to the counter.\<close>

definition is_success :: "response \<Rightarrow> bool" where
  "is_success r =
     (case r of
        NetworkError \<Rightarrow> False
      | Response status body \<Rightarrow>
          status = 200 \<and> (case body of None \<Rightarrow> False | Some d \<Rightarrow> \<not> nullish d))"

text \<open>The number of non-success responses in a row just before call \<open>n\<close>.\<close>

primrec misses_before :: "(nat \<Rightarrow> response) \<Rightarrow> nat \<Rightarrow> nat" where
  "misses_before net 0 = 0"
| "misses_before net (Suc n) = (if is_success (net n) then 0 else Suc (misses_before net n))"

text \<open>
  The calendar of the loop in closed form: with \<open>k\<close> the months from January 2025 to
  the issue asked for by call \<open>n\<close> (the start month, and two months a call for \<open>mwb\<close>,
  one otherwise), the issue is month \<open>k mod 12 + 1\<close> of year \<open>2025 + k div 12\<close>.
\<close>

definition months_at :: "string \<Rightarrow> nat \<Rightarrow> nat \<Rightarrow> nat" where
  "months_at p now_month n =
     (if p = ''mwb'' then (now_month div 2) * 2 + 2 * n else now_month + n)"

definition issue_at :: "string \<Rightarrow> nat \<Rightarrow> nat \<Rightarrow> string" where
  "issue_at p now_month n =
     issueDate_of (2025 + months_at p now_month n div 12) (months_at p now_month n mod 12 + 1)"

text \<open>The publication a response yields for the issue \<open>date\<close>, if any: the entry pushed
  when the status is 200 and \<open>data.files?.[language]\<close> is truthy.\<close>

definition url_of :: "string \<Rightarrow> jsval \<Rightarrow> jsval" where
  "url_of fmt langData =
     or_else (opt_prop ''url'' (opt_prop ''file'' (opt_element0 (member fmt langData))))
             (opt_prop ''url'' (opt_element0 (member fmt langData)))"

definition yield :: "string \<Rightarrow> string \<Rightarrow> string \<Rightarrow> response \<Rightarrow> DiscoveredPublication list" where
  "yield p lang date r =
     (case r of
        Response status (Some data) \<Rightarrow>
          if status = 200 \<and> \<not> nullish data \<and> truthy (opt_prop lang (member ''files'' data))
          then [\<lparr>pub = p, issue = date, language = lang,
                 jwpubUrl = url_of ''JWPUB'' (opt_prop lang (member ''files'' data)),
                 epubUrl = url_of ''EPUB'' (opt_prop lang (member ''files'' data))\<rparr>]
          else []
      | _ \<Rightarrow> [])"

primrec collected :: "string \<Rightarrow> string \<Rightarrow> nat \<Rightarrow> (nat \<Rightarrow> response) \<Rightarrow> nat \<Rightarrow> DiscoveredPublication list" where
  "collected p lang now_month net 0 = []"
| "collected p lang now_month net (Suc n) =
     collected p lang now_month net n @ yield p lang (issue_at p now_month n) (net n)"

definition read_nat :: "string \<Rightarrow> nat" where
  "read_nat s = foldl (\<lambda>a c. 10 * a + (code c - 48)) 0 s"

subsection \<open>Sample responses\<close>

text \<open>A body of the shape the CDN sends, with files for the language \<open>S\<close> only, and a
  network that answers three calls with it and every later call with a 404.\<close>

definition sample_body :: jsval where
  "sample_body =
     Obj [(''files'',
       Obj [(''S'',
         Obj [(''JWPUB'', Arr [Obj [(''file'', Obj [(''url'', Str ''https://cdn/a.jwpub'')])]]),
              (''EPUB'', Arr [Obj [(''url'', Str ''https://cdn/a.epub'')]])])])]"

definition sample_net :: "nat \<Rightarrow> response" where
  "sample_net n = (if n < 3 then Response 200 (Some sample_body) else Response 404 None)"

text \<open>A network that answers every call with the body \<open>{"files": {}}\<close>.\<close>

definition empty_files_net :: "nat \<Rightarrow> response" where
  "empty_files_net n = Response 200 (Some (Obj [(''files'', Obj [])]))"

section \<open>The content normalizer: \<open>ParsingService.parseDocument\<close>\<close>

subsection \<open>The document tree\<close>

text \<open>
  \<open>parseDocument\<close> works on the tree that the HTML library's \<open>parse\<close> builds: text
  nodes with their text as written, and elements. An element is what the library
  keeps of a tag: the tag name as written, the attributes as written (names in their
  own case, values without their quotes and with character references not yet
  decoded, in the order written), the class list (the tokens that the parser found in
  the class attribute), and the children. The library's decoder of character
  references is not part of the repository: it is the parameter \<open>decode\<close> of what
  follows.
\<close>

datatype node = Text string | Element string "(string \<times> string) list" "string list" "node list"

text \<open>\<open>querySelectorAll(tag)\<close>: the elements whose tag name, in lower case, is the one
  asked for, in document order.\<close>

fun select :: "string \<Rightarrow> node \<Rightarrow> node list" where
  "select t (Text s) = []"
| "select t (Element tag attrs cls kids) =
     (if toLowerCase tag = t then [Element tag attrs cls kids] else [])
     @ concat (map (select t) kids)"

definition querySelectorAll :: "string \<Rightarrow> node list \<Rightarrow> node list" where
  "querySelectorAll t root = concat (map (select t) root)"

text \<open>\<open>querySelector(tag)\<close>: the first of them, or \<open>null\<close>.\<close>

definition querySelector :: "string \<Rightarrow> node list \<Rightarrow> node option" where
  "querySelector t root = (case querySelectorAll t root of [] \<Rightarrow> None | e # _ \<Rightarrow> Some e)"

text \<open>\<open>textContent\<close>: the text of the text nodes below, as written, with a line feed
  for every \<open>br\<close> element, and then decoded.\<close>

fun rawText :: "node \<Rightarrow> string" where
  "rawText (Text s) = s"
| "rawText (Element tag attrs cls kids) =
     (if toLowerCase tag = ''br'' then [CHR 0x0A] else concat (map rawText kids))"

definition textContent :: "(string \<Rightarrow> string) \<Rightarrow> node \<Rightarrow> string" where
  "textContent decode n = decode (rawText n)"

fun attributes :: "node \<Rightarrow> (string \<times> string) list" where
  "attributes (Text s) = []"
| "attributes (Element tag attrs cls kids) = attrs"

fun classList :: "node \<Rightarrow> string list" where
  "classList (Text s) = []"
| "classList (Element tag attrs cls kids) = cls"

text \<open>The attributes whose name, in lower case, is that of \<open>name\<close>.\<close>

definition named :: "string \<Rightarrow> (string \<times> string) list \<Rightarrow> (string \<times> string) list" where
  "named name attrs = filter (\<lambda>(k, v). toLowerCase k = toLowerCase name) attrs"

text \<open>
  \<open>getAttribute(name)\<close> reads a table that the library fills from the attributes in
  the order written, each under its lower-cased name and with its value decoded, a
  later one replacing an earlier one of the same lower-cased name. So the last of the
  attributes of that name is read.
\<close>

definition getAttribute :: "(string \<Rightarrow> string) \<Rightarrow> string \<Rightarrow> node \<Rightarrow> string option" where
  "getAttribute decode name e =
     (case rev (named name (attributes e)) of [] \<Rightarrow> None | (k, v) # _ \<Rightarrow> Some (decode v))"

text \<open>\<open>e.getAttribute(name) || ''\<close>.\<close>

definition attr_or_empty :: "(string \<Rightarrow> string) \<Rightarrow> string \<Rightarrow> node \<Rightarrow> string" where
  "attr_or_empty decode name e = (case getAttribute decode name e of None \<Rightarrow> [] | Some v \<Rightarrow> v)"

text \<open>
  \<open>setAttribute(name, value)\<close> writes the value, as it is, to the first attribute whose
  lower-cased name is that of \<open>name\<close>, and adds the attribute at the end when there is
  none. \<open>removeAttribute(name)\<close> removes the attribute written with exactly that name:
  it is \<^const>\<open>AList.delete\<close>.
\<close>

fun setAttribute :: "string \<Rightarrow> string \<Rightarrow> (string \<times> string) list \<Rightarrow> (string \<times> string) list" where
  "setAttribute name v [] = [(name, v)]"
| "setAttribute name v ((k, w) # rest) =
     (if toLowerCase k = toLowerCase name then (k, v) # rest
      else (k, w) # setAttribute name v rest)"

text \<open>
  What an attribute is in the html that is returned: the first attribute of that name
  in the tag as it is written out, names compared without their case as HTML does,
  with the value as written.
\<close>

definition written_attribute :: "string \<Rightarrow> node \<Rightarrow> string option" where
  "written_attribute name e =
     (case named name (attributes e) of [] \<Rightarrow> None | (k, v) # _ \<Rightarrow> Some v)"

text \<open>
  \<open>classList.add(c)\<close>: the class list is a set that keeps the order of insertion; the
  token is added when it is not there, and the class attribute is set to the tokens
  joined by single spaces. (A token with white space in it is refused; \<open>jw-image\<close>,
  the only token added, has none.)
\<close>

fun join_tokens :: "string list \<Rightarrow> string" where
  "join_tokens [] = []"
| "join_tokens [t] = t"
| "join_tokens (t # ts) = t @ CHR '' '' # join_tokens ts"

definition add_token :: "string \<Rightarrow> string list \<Rightarrow> string list" where
  "add_token c ts = (if c \<in> set ts then ts else ts @ [c])"

subsection \<open>String methods\<close>

text \<open>\<open>s.replace(pat, '')\<close> with a string pattern: the first occurrence is removed.\<close>

fun remove_first :: "string \<Rightarrow> string \<Rightarrow> string" where
  "remove_first pat [] = []"
| "remove_first pat (c # cs) =
     (if prefix pat (c # cs) then drop (length pat) (c # cs) else c # remove_first pat cs)"

text \<open>\<open>s.split('/')\<close>: the pieces between the separators, at least one; \<open>pop()\<close> gives
  the last element of an array, \<open>undefined\<close> (\<open>None\<close>) for an empty one.\<close>

fun split_on :: "char \<Rightarrow> string \<Rightarrow> string \<Rightarrow> string list" where
  "split_on sep acc [] = [acc]"
| "split_on sep acc (c # cs) =
     (if c = sep then acc # split_on sep [] cs else split_on sep (acc @ [c]) cs)"

definition pop :: "'a list \<Rightarrow> 'a option" where
  "pop xs = (case rev xs of [] \<Rightarrow> None | x # _ \<Rightarrow> Some x)"

subsection \<open>\<open>parseDocument\<close>\<close>

datatype ref_type = Bible | Publication | Video

datatype asset_type = ImageAsset | VideoAsset

text \<open>The fields \<open>type\<close>, \<open>link\<close> and \<open>text\<close> of \<open>ExtractedReference\<close>, the fields
  \<open>fileName\<close>, \<open>altText\<close> and \<open>type\<close> of \<open>ExtractedAsset\<close>, and the fields of
  \<open>StructuredContent\<close>.\<close>

record ExtractedReference =
  ref_type :: ref_type
  link :: string
  ref_text :: string

record ExtractedAsset =
  fileName :: string
  altText :: string
  asset_type :: asset_type

record StructuredContent =
  doc_id :: string
  doc_title :: string
  references :: "ExtractedReference list"
  assets :: "ExtractedAsset list"
  doc_html :: string
  paragraphs :: "string list"

text \<open>The body of \<open>links.forEach\<close>: the references one anchor adds.\<close>

definition anchor_references :: "(string \<Rightarrow> string) \<Rightarrow> node \<Rightarrow> ExtractedReference list" where
  "anchor_references decode a =
     (let href = attr_or_empty decode ''href'' a;
          dataVideo = attr_or_empty decode ''data-video'' a;
          txt = trim (textContent decode a)
      in (if prefix ''bible://'' href then [\<lparr>ref_type = Bible, link = href, ref_text = txt\<rparr>]
          else if prefix ''jwpub://'' href then [\<lparr>ref_type = Publication, link = href, ref_text = txt\<rparr>]
          else [])
         @ (if prefix ''webpubvid://'' href \<or> prefix ''webpubvid://'' dataVideo
            then [\<lparr>ref_type = Video,
                   link = (if dataVideo = [] then href else dataVideo),
                   ref_text = (if txt = [] then ''Video'' else txt)\<rparr>]
            else []))"

text \<open>The body of \<open>images.forEach\<close>: the file name, the asset, and the new attributes of
  one image.\<close>

definition image_fileName :: "string \<Rightarrow> string" where
  "image_fileName src =
     (case pop (split_on CHR ''/'' [] (remove_first ''jwpub-media://'' src)) of
        None \<Rightarrow> src
      | Some seg \<Rightarrow> if seg = [] then src else seg)"



definition image_asset :: "(string \<Rightarrow> string) \<Rightarrow> node \<Rightarrow> ExtractedAsset" where
  "image_asset decode img =
     \<lparr>fileName = image_fileName (attr_or_empty decode ''src'' img),
      altText = attr_or_empty decode ''alt'' img,
      asset_type = ImageAsset\<rparr>"

text \<open>The attributes of an image after \<open>setAttribute('src', ...)\<close>, the two calls of
  \<open>removeAttribute\<close> and \<open>classList.add('jw-image')\<close>, from the \<open>src\<close> that was read, the
  class list and the attributes it had.\<close>

definition rewrite_attributes ::
  "string \<Rightarrow> string list \<Rightarrow> (string \<times> string) list \<Rightarrow> (string \<times> string) list" where
  "rewrite_attributes src cls attrs =
     setAttribute ''class'' (join_tokens (add_token ''jw-image'' cls))
       (AList.delete ''height''
          (AList.delete ''width''
             (setAttribute ''src'' (''./assets/'' @ image_fileName src) attrs)))"

text \<open>The tree after \<open>images.forEach\<close>: every \<open>img\<close> element has its attributes and its
  class list rewritten where it stands, and nothing else changes.\<close>

fun rewrite_images :: "(string \<Rightarrow> string) \<Rightarrow> node \<Rightarrow> node" where
  "rewrite_images decode (Text s) = Text s"
| "rewrite_images decode (Element tag attrs cls kids) =
     (if toLowerCase tag = ''img''
      then Element tag
             (rewrite_attributes (attr_or_empty decode ''src'' (Element tag attrs cls kids)) cls attrs)
             (add_token ''jw-image'' cls)
             (map (rewrite_images decode) kids)
      else Element tag attrs cls (map (rewrite_images decode) kids))"

definition video_asset :: "ExtractedReference \<Rightarrow> ExtractedAsset" where
  "video_asset v = \<lparr>fileName = link v, altText = ref_text v, asset_type = VideoAsset\<rparr>"

text \<open>\<open>root.querySelector(tag)?.textContent?.trim()\<close>, with \<open>undefined\<close> as the empty
  string (both are falsy, and the chain of \<open>||\<close> ends in \<open>''\<close>).\<close>

definition heading_text :: "(string \<Rightarrow> string) \<Rightarrow> string \<Rightarrow> node list \<Rightarrow> string" where
  "heading_text decode t root =
     (case querySelector t root of None \<Rightarrow> [] | Some e \<Rightarrow> trim (textContent decode e))"

text \<open>
  \<open>parseDocument\<close>. The library's \<open>parse\<close>, its decoder and the \<open>toString\<close> of the root
  are parameters: what is proved of \<open>parseDocument\<close> holds for every parser, decoder
  and serializer.
\<close>

definition parseDocument ::
  "(string \<Rightarrow> node list) \<Rightarrow> (string \<Rightarrow> string) \<Rightarrow> (node list \<Rightarrow> string) \<Rightarrow> string \<Rightarrow> string
     \<Rightarrow> StructuredContent" where
  "parseDocument parse decode toString html docId =
     (let root = parse html;
          title = (if heading_text decode ''h1'' root = [] then heading_text decode ''h2'' root
                   else heading_text decode ''h1'' root);
          refs = concat (map (anchor_references decode) (querySelectorAll ''a'' root));
          images = querySelectorAll ''img'' root;
          root1 = map (rewrite_images decode) root;
          assets1 = map (image_asset decode) images
                    @ map video_asset (filter (\<lambda>r. ref_type r = Video) refs);
          paras = filter (\<lambda>t. length t > 0)
                    (map (\<lambda>p. trim (textContent decode p)) (querySelectorAll ''p'' root1))
      in \<lparr>doc_id = docId, doc_title = title, references = refs, assets = assets1,
          doc_html = toString root1, paragraphs = paras\<rparr>)"

subsection \<open>A reference parser, decoder and serializer\<close>

text \<open>
  To run \<open>parseDocument\<close> on concrete documents, the three library functions are
  given here for well-formed markup: tags with attributes in double or single quotes
  (or bare, or without a value), text, and the void elements, which have no end tag.
  Comments are not recognised. The decoder knows the four references \<open>&amp;\<close>,
  \<open>&lt;\<close>, \<open>&gt;\<close> and \<open>&quot;\<close> and leaves every other text as it is: on text in
  which every ampersand starts one of these four it is the library's decoder.
\<close>

fun decode_basic :: "string \<Rightarrow> string" where
  "decode_basic [] = []"
| "decode_basic (c # cs) =
     (if prefix ''&amp;'' (c # cs) then CHR ''&'' # decode_basic (drop 4 cs)
      else if prefix ''&lt;'' (c # cs) then CHR ''<'' # decode_basic (drop 3 cs)
      else if prefix ''&gt;'' (c # cs) then CHR ''>'' # decode_basic (drop 3 cs)
      else if prefix ''&quot;'' (c # cs) then CHR 0x22 # decode_basic (drop 5 cs)
      else c # decode_basic cs)"

text \<open>The class list the parser gives an element: the pieces of the value of its last
  class attribute between runs of white space, each once; none for an empty value.\<close>

definition class_list :: "(string \<times> string) list \<Rightarrow> string list" where
  "class_list attrs =
     (case rev (named ''class'' attrs) of
        [] \<Rightarrow> []
      | (k, v) # _ \<Rightarrow> if v = [] then [] else fold add_token (split_spaces [] v) [])"

definition is_void :: "string \<Rightarrow> bool" where
  "is_void tag = (tag \<in> set [''area'', ''base'', ''br'', ''col'', ''embed'', ''hr'', ''img'',
                              ''input'', ''link'', ''meta'', ''source'', ''track'', ''wbr''])"

definition dquote :: char where
  "dquote = CHR 0x22"

definition squote :: char where
  "squote = CHR 0x27"

fun serialize_node :: "node \<Rightarrow> string" where
  "serialize_node (Text s) = s"
| "serialize_node (Element tag attrs cls kids) =
     ''<'' @ tag @ concat (map (\<lambda>(k, v). '' '' @ k @ ''='' @ [dquote] @ v @ [dquote]) attrs) @ ''>''
     @ (if is_void (toLowerCase tag) then []
        else concat (map serialize_node kids) @ ''</'' @ tag @ ''>'')"

definition serialize_html :: "node list \<Rightarrow> string" where
  "serialize_html root = concat (map serialize_node root)"

datatype token = TText string | TOpen string "(string \<times> string) list" bool | TClose string

text \<open>The attributes of a start tag, read character by character.\<close>

datatype attr_state =
  Between | InName string | AfterName string | BeforeValue string
  | InQuoted string char string | InBare string string

fun read_attrs :: "attr_state \<Rightarrow> string \<Rightarrow> (string \<times> string) list" where
  "read_attrs Between [] = []"
| "read_attrs (InName n) [] = [(n, [])]"
| "read_attrs (AfterName n) [] = [(n, [])]"
| "read_attrs (BeforeValue n) [] = [(n, [])]"
| "read_attrs (InQuoted n q v) [] = [(n, v)]"
| "read_attrs (InBare n v) [] = [(n, v)]"
| "read_attrs Between (c # cs) =
     (if is_space c \<or> c = CHR ''/'' \<or> c = CHR ''='' then read_attrs Between cs
      else read_attrs (InName [c]) cs)"
| "read_attrs (InName n) (c # cs) =
     (if is_space c then read_attrs (AfterName n) cs
      else if c = CHR ''='' then read_attrs (BeforeValue n) cs
      else if c = CHR ''/'' then (n, []) # read_attrs Between cs
      else read_attrs (InName (n @ [c])) cs)"
| "read_attrs (AfterName n) (c # cs) =
     (if is_space c then read_attrs (AfterName n) cs
      else if c = CHR ''='' then read_attrs (BeforeValue n) cs
      else if c = CHR ''/'' then (n, []) # read_attrs Between cs
      else (n, []) # read_attrs (InName [c]) cs)"
| "read_attrs (BeforeValue n) (c # cs) =
     (if is_space c then read_attrs (BeforeValue n) cs
      else if c = dquote \<or> c = squote then read_attrs (InQuoted n c []) cs
      else read_attrs (InBare n [c]) cs)"
| "read_attrs (InQuoted n q v) (c # cs) =
     (if c = q then (n, v) # read_attrs Between cs else read_attrs (InQuoted n q (v @ [c])) cs)"
| "read_attrs (InBare n v) (c # cs) =
     (if is_space c then (n, v) # read_attrs Between cs else read_attrs (InBare n (v @ [c])) cs)"

definition in_tag_name :: "char \<Rightarrow> bool" where
  "in_tag_name c = (\<not> is_space c \<and> c \<noteq> CHR ''/'' \<and> c \<noteq> CHR ''>'')"

text \<open>The token of the text between \<open><\<close> and \<open>>\<close>.\<close>

definition tag_token :: "string \<Rightarrow> token" where
  "tag_token inside =
     (case inside of
        [] \<Rightarrow> TText ''<>''
      | c # cs \<Rightarrow>
          if c = CHR ''/'' then TClose (takeWhile in_tag_name cs)
          else TOpen (takeWhile in_tag_name inside)
                 (read_attrs Between (dropWhile in_tag_name inside))
                 (case rev inside of [] \<Rightarrow> False | l # _ \<Rightarrow> l = CHR ''/''))"

definition is_alpha :: "char \<Rightarrow> bool" where
  "is_alpha c = ((65 \<le> code c \<and> code c \<le> 90) \<or> (97 \<le> code c \<and> code c \<le> 122))"

definition tag_start :: "string \<Rightarrow> bool" where
  "tag_start cs = (case cs of [] \<Rightarrow> False | d # _ \<Rightarrow> is_alpha d \<or> d = CHR ''/'')"

text \<open>The tokens of a document: text up to a \<open><\<close> that starts a tag, then the tag up to
  the next \<open>>\<close> outside quotes.\<close>

datatype lex_state = Data string | InTag "char option" string

fun lex :: "lex_state \<Rightarrow> string \<Rightarrow> token list" where
  "lex (Data acc) [] = (if acc = [] then [] else [TText acc])"
| "lex (InTag q acc) [] = [TText (''<'' @ acc)]"
| "lex (Data acc) (c # cs) =
     (if c = CHR ''<'' \<and> tag_start cs
      then (if acc = [] then [] else [TText acc]) @ lex (InTag None []) cs
      else lex (Data (acc @ [c])) cs)"
| "lex (InTag None acc) (c # cs) =
     (if c = CHR ''>'' then tag_token acc # lex (Data []) cs
      else lex (InTag (if c = dquote \<or> c = squote then Some c else None) (acc @ [c])) cs)"
| "lex (InTag (Some q) acc) (c # cs) =
     lex (InTag (if c = q then None else Some q) (acc @ [c])) cs"

text \<open>The tree of the tokens, with a stack of the elements still open (innermost
  first), each with the children it has so far.\<close>

type_synonym frame = "string \<times> (string \<times> string) list \<times> node list"

fun add_child :: "node \<Rightarrow> frame list \<Rightarrow> node list \<Rightarrow> frame list \<times> node list" where
  "add_child n [] out = ([], out @ [n])"
| "add_child n ((tag, attrs, kids) # stack) out = ((tag, attrs, kids @ [n]) # stack, out)"

fun close_until :: "string \<Rightarrow> frame list \<Rightarrow> node list \<Rightarrow> frame list \<times> node list" where
  "close_until name [] out = ([], out)"
| "close_until name [(tag, attrs, kids)] out = ([], out @ [Element tag attrs (class_list attrs) kids])"
| "close_until name ((tag, attrs, kids) # (tag2, attrs2, kids2) # stack) out =
     (if tag = name then ((tag2, attrs2, kids2 @ [Element tag attrs (class_list attrs) kids]) # stack, out)
      else close_until name ((tag2, attrs2, kids2 @ [Element tag attrs (class_list attrs) kids]) # stack) out)"

fun close_all :: "frame list \<Rightarrow> node list \<Rightarrow> node list" where
  "close_all [] out = out"
| "close_all [(tag, attrs, kids)] out = out @ [Element tag attrs (class_list attrs) kids]"
| "close_all ((tag, attrs, kids) # (tag2, attrs2, kids2) # stack) out =
     close_all ((tag2, attrs2, kids2 @ [Element tag attrs (class_list attrs) kids]) # stack) out"

fun build :: "token list \<Rightarrow> frame list \<Rightarrow> node list \<Rightarrow> node list" where
  "build [] stack out = close_all stack out"
| "build (TText s # ts) stack out =
     (let (stack1, out1) = add_child (Text s) stack out in build ts stack1 out1)"
| "build (TOpen name attrs selfclosing # ts) stack out =
     (if is_void (toLowerCase name) \<or> selfclosing
      then (let (stack1, out1) = add_child (Element name attrs (class_list attrs) []) stack out in build ts stack1 out1)
      else build ts ((name, attrs, []) # stack) out)"
| "build (TClose name # ts) stack out =
     (if name \<in> set (map fst stack)
      then (let (stack1, out1) = close_until name stack out in build ts stack1 out1)
      else build ts stack out)"

definition parse_html :: "string \<Rightarrow> node list" where
  "parse_html s = build (lex (Data []) s) [] []"

subsection \<open>Sample documents\<close>

definition quoted :: "string \<Rightarrow> string" where
  "quoted s = [dquote] @ s @ [dquote]"

text \<open>A heading, a paragraph with a Bible link and a video link that has both a \<open>href\<close>
  and a \<open>data-video\<close>, an image from the publication's media, and an image without a
  \<open>src\<close>.\<close>

definition sample_document :: string where
  "sample_document =
     ''<h1>Week 1</h1><p>Read <a href='' @ quoted ''bible://1:1'' @ ''>Gen 1:1</a> and watch ''
     @ ''<a href='' @ quoted ''webpubvid://h'' @ '' data-video='' @ quoted ''webpubvid://v'' @ ''></a>.</p>''
     @ ''<img src='' @ quoted ''jwpub-media://x/y/z.jpg'' @ '' width='' @ quoted ''30''
     @ '' height='' @ quoted ''20'' @ '' alt='' @ quoted ''A'' @ ''><img alt='' @ quoted ''B'' @ ''>''"

text \<open>An anchor whose video is named by \<open>data-video\<close> alone.\<close>

definition data_video_only :: string where
  "data_video_only = ''<a data-video='' @ quoted ''webpubvid://v'' @ ''>x</a>''"




section \<open>Proofs: characters\<close>

lemma code_char_of: "code (char_of n) = n mod 256"
  by (simp add: code_def)

lemma char_of_48: "char_of (48::nat) = CHR ''0''"
  by code_simp

section \<open>Proofs: the search index\<close>

text \<open>
  C2, as the code has it. A posting list holds a document id once (\<open>addNode\<close> pushes
  the id only when \<open>includes\<close> does not find it), and \<open>search\<close> gives a document one
  point for each token of the query that has it in its posting list. After
  \<open>addNode("1", "t", "<p>love and love</p>")\<close> and \<open>addNode("2", "t2", "<p>love</p>")\<close>
  the query \<open>"love"\<close> returns both documents with the score 1, document 1 first (the
  sort is stable and document 1 was counted first).
\<close>

theorem search_love_both_score_one:
  "search ''love''
     (addNode ''2'' ''t2'' ''<p>love</p>''
        (addNode ''1'' ''t'' ''<p>love and love</p>'' new_engine))
   = [\<lparr>score = 1,
        node = Some \<lparr>node_id = ''1'', node_title = ''t'', node_text = ''love and love'',
                      node_html = ''<p>love and love</p>''\<rparr>\<rparr>,
      \<lparr>score = 1,
        node = Some \<lparr>node_id = ''2'', node_title = ''t2'', node_text = ''love'',
                      node_html = ''<p>love</p>''\<rparr>\<rparr>]"
  by code_simp

text \<open>C2 as stated, with the scores 2 and 1, does not hold.\<close>

theorem search_love_scores_counterexample:
  "map score
     (search ''love''
        (addNode ''2'' ''t2'' ''<p>love</p>''
           (addNode ''1'' ''t'' ''<p>love and love</p>'' new_engine)))
   \<noteq> [2, 1]"
  by code_simp

section \<open>Proofs: key derivation\<close>

lemma atob_masterKey:
  "atob masterKeyBase64 = Some ''11cbb5587e32846d4c26790c633da289f66fe5842a3a585ce1bc3a294af5ada7''"
  by code_simp

lemma hexToBytes_masterKey:
  "hexToBytes ''11cbb5587e32846d4c26790c633da289f66fe5842a3a585ce1bc3a294af5ada7'' = master_key"
  by code_simp

lemma length_sha256: "length (sha256 m) = 32"
  by (auto simp: sha256_def state_bytes_def word_bytes_def Let_def split: prod.split)

lemma hex_digit_props:
  assumes "d < 16"
  shows "is_hex (hex_digit d)" and "hex_val (hex_digit d) = d"
  using assms by (auto simp: is_hex_def hex_val_def hex_digit_def code_char_of)

lemma hex_digit_0: "hex_digit 0 = CHR ''0''"
  by code_simp

lemma hex_pair:
  "padStart 2 CHR ''0'' (toString16 (unat (b::byte)))
     = [hex_digit (unat b div 16), hex_digit (unat b mod 16)]"
  by (simp add: padStart_def toString16_def hex_digit_0)

lemma unat_byte_div16: "unat (b::byte) div 16 < 16"
proof -
  have "unat b < 256" using unsigned_less [of b] by simp
  then show ?thesis by simp
qed

lemma bytesToHex_Nil: "bytesToHex [] = []"
  by (simp add: bytesToHex_def)

lemma bytesToHex_Cons:
  "bytesToHex (b # bs) = hex_digit (unat b div 16) # hex_digit (unat b mod 16) # bytesToHex bs"
  using hex_pair [of b] by (simp add: bytesToHex_def)

lemma length_bytesToHex: "length (bytesToHex bs) = 2 * length bs"
  by (induction bs) (simp_all add: bytesToHex_Nil bytesToHex_Cons)

lemma is_hex_bytesToHex: "filter is_hex (bytesToHex bs) = bytesToHex bs"
  by (induction bs) (simp_all add: bytesToHex_Nil bytesToHex_Cons hex_digit_props unat_byte_div16)

lemma take_bytesToHex: "take (2 * n) (bytesToHex bs) = bytesToHex (take n bs)"
proof (induction bs arbitrary: n)
  case Nil
  then show ?case by (simp add: bytesToHex_Nil)
next
  case (Cons b bs)
  show ?case
  proof (cases n)
    case 0
    then show ?thesis by (simp add: bytesToHex_Nil)
  next
    case (Suc k)
    then show ?thesis using Cons.IH [of k] by (simp add: bytesToHex_Cons)
  qed
qed

lemma drop_bytesToHex: "drop (2 * n) (bytesToHex bs) = bytesToHex (drop n bs)"
proof (induction bs arbitrary: n)
  case Nil
  then show ?case by (simp add: bytesToHex_Nil)
next
  case (Cons b bs)
  show ?case
  proof (cases n)
    case 0
    then show ?thesis by simp
  next
    case (Suc k)
    then show ?thesis using Cons.IH [of k] by (simp add: bytesToHex_Cons)
  qed
qed

lemma map_pairs_Cons:
  "map (\<lambda>i. (of_nat (parseInt16 (take 2 (drop (i * 2) (a # b # r)))) :: byte)) [0..<Suc n]
     = of_nat (parseInt16 [a, b])
       # map (\<lambda>i. of_nat (parseInt16 (take 2 (drop (i * 2) r)))) [0..<n]"
proof -
  have "[0..<Suc n] = 0 # map Suc [0..<n]"
    by (simp add: upt_conv_Cons map_Suc_upt del: upt_Suc)
  then show ?thesis by (simp add: comp_def del: upt_Suc)
qed

lemma byte_of_hex_pair:
  "(of_nat (parseInt16 [hex_digit (unat b div 16), hex_digit (unat b mod 16)]) :: byte) = b"
proof -
  have "parseInt16 [hex_digit (unat b div 16), hex_digit (unat b mod 16)]
          = 16 * (unat b div 16) + unat b mod 16"
    by (simp add: parseInt16_def hex_digit_props unat_byte_div16)
  also have "\<dots> = unat b" by simp
  finally show ?thesis by simp
qed

lemma hexToBytes_bytesToHex: "hexToBytes (bytesToHex bs) = bs"
proof -
  have "map (\<lambda>i. (of_nat (parseInt16 (take 2 (drop (i * 2) (bytesToHex bs)))) :: byte))
          [0..<length bs] = bs"
  proof (induction bs)
    case Nil
    then show ?case by simp
  next
    case (Cons b bs)
    show ?case
      by (simp only: bytesToHex_Cons length_Cons map_pairs_Cons byte_of_hex_pair Cons.IH)
  qed
  then show ?thesis
    by (simp add: hexToBytes_def is_hex_bytesToHex length_bytesToHex)
qed

lemma nth_concat_replicate:
  "b \<noteq> [] \<Longrightarrow> i < n * length b \<Longrightarrow> concat (replicate n b) ! i = b ! (i mod length b)"
proof (induction n arbitrary: i)
  case 0
  then show ?case by simp
next
  case (Suc n)
  show ?case
  proof (cases "i < length b")
    case True
    then show ?thesis by (simp add: nth_append)
  next
    case False
    with Suc.prems have "i - length b < n * length b" by simp
    with Suc.IH [of "i - length b"] Suc.prems(1)
    have "concat (replicate n b) ! (i - length b) = b ! ((i - length b) mod length b)" by simp
    with False show ?thesis by (simp add: nth_append le_mod_geq)
  qed
qed

lemma xorBuffers_cyclic:
  "xorBuffers a (k # ks)
     = map2 (XOR) a (take (length a) (concat (replicate (length a) (k # ks))))"
proof (rule nth_equalityI)
  have "length a \<le> length a * length (k # ks)" by simp
  then show "length (xorBuffers a (k # ks))
        = length (map2 (XOR) a (take (length a) (concat (replicate (length a) (k # ks)))))"
    by (simp add: xorBuffers_def length_concat sum_list_replicate min_def)
next
  fix i assume "i < length (xorBuffers a (k # ks))"
  then have i: "i < length a" by (simp add: xorBuffers_def)
  then have "i < length a * length (k # ks)" 
    by (metis length_greater_0_conv list.distinct(1) mult.right_neutral mult_le_mono2 less_le_trans Suc_leI One_nat_def)
  with i show "xorBuffers a (k # ks) ! i
        = map2 (XOR) a (take (length a) (concat (replicate (length a) (k # ks)))) ! i"
    using nth_concat_replicate [of "k # ks" i "length a"]
    by (simp add: xorBuffers_def length_concat sum_list_replicate del: replicate.simps concat.simps)
qed

lemma xorBuffers_same_length:
  assumes "length a = length b"
  shows "xorBuffers a b = map2 (XOR) a b"
proof (rule nth_equalityI)
  show "length (xorBuffers a b) = length (map2 (XOR) a b)"
    using assms by (simp add: xorBuffers_def)
next
  fix i assume "i < length (xorBuffers a b)"
  then have "i < length a" by (simp add: xorBuffers_def)
  with assms show "xorBuffers a b ! i = map2 (XOR) a b ! i"
    by (auto simp: xorBuffers_def)
qed


lemma length_master_key: "length master_key = 32"
  by (simp add: master_key_def)

lemma length_derived_bytes: "length (derived_bytes pubCard) = 32"
  by (simp add: derived_bytes_def length_sha256 length_master_key)

lemma take_32_bytesToHex: "take 32 (bytesToHex bs) = bytesToHex (take 16 bs)"
  using take_bytesToHex [of 16 bs] by simp

lemma drop_32_bytesToHex: "drop 32 (bytesToHex bs) = bytesToHex (drop 16 bs)"
  using drop_bytesToHex [of 16 bs] by simp

lemma getDeriveKeyAndIv_eq:
  "getDeriveKeyAndIv pubCard =
     Inr \<lparr>key = bytesToHex (take 16 (derived_bytes pubCard)),
          iv = bytesToHex (drop 16 (derived_bytes pubCard))\<rparr>"
proof -
  have x: "xorBuffers (generateSHA256 pubCard) master_key = derived_bytes pubCard"
    by (simp add: xorBuffers_same_length generateSHA256_def length_sha256 length_master_key
          derived_bytes_def)
  have "take 32 (drop 32 (bytesToHex (derived_bytes pubCard)))
          = drop 32 (bytesToHex (derived_bytes pubCard))"
    by (simp add: length_bytesToHex length_derived_bytes)
  then show ?thesis
    by (simp add: getDeriveKeyAndIv_def atob_masterKey hexToBytes_masterKey x slice_def Let_def
          take_32_bytesToHex drop_32_bytesToHex)
qed

text \<open>
  C1. For every pubCard, \<open>getDeriveKeyAndIv\<close> returns (it does not throw) a key and an
  IV of 32 hexadecimal characters, 16 bytes, each. The SHA-256 digest of the UTF-8
  pubCard has 32 bytes; the embedded constant, base64-decoded to a hexadecimal text and
  then hex-decoded, is the 32 bytes \<open>master_key\<close>; \<open>xorBuffers\<close> combines its first
  argument byte for byte with the second, repeated cyclically; and the key followed by
  the IV is the 64-character hexadecimal rendering of digest XOR master key, the key
  decoding to its first 16 bytes and the IV to its last 16.
\<close>

theorem getDeriveKeyAndIv_derivation:
  "length (generateSHA256 pubCard) = 32
   \<and> generateSHA256 pubCard = sha256 (encode pubCard)
   \<and> map_option hexToBytes (atob masterKeyBase64) = Some master_key
   \<and> length master_key = 32
   \<and> xorBuffers a (k # ks)
       = map2 (XOR) a (take (length a) (concat (replicate (length a) (k # ks))))
   \<and> (\<exists>ky v. getDeriveKeyAndIv pubCard = Inr \<lparr>key = ky, iv = v\<rparr>
          \<and> length ky = 32 \<and> length v = 32
          \<and> ky @ v = bytesToHex (derived_bytes pubCard)
          \<and> length (bytesToHex (derived_bytes pubCard)) = 64
          \<and> hexToBytes ky = take 16 (derived_bytes pubCard)
          \<and> hexToBytes v = drop 16 (derived_bytes pubCard)
          \<and> length (hexToBytes ky) = 16 \<and> length (hexToBytes v) = 16)"
proof -
  let ?x = "derived_bytes pubCard"
  have split: "bytesToHex (take 16 ?x) @ bytesToHex (drop 16 ?x) = bytesToHex ?x"
    using append_take_drop_id [of 32 "bytesToHex ?x"]
    by (simp only: take_32_bytesToHex drop_32_bytesToHex)
  have result: "\<exists>ky v. getDeriveKeyAndIv pubCard = Inr \<lparr>key = ky, iv = v\<rparr>
          \<and> length ky = 32 \<and> length v = 32
          \<and> ky @ v = bytesToHex ?x
          \<and> length (bytesToHex ?x) = 64
          \<and> hexToBytes ky = take 16 ?x
          \<and> hexToBytes v = drop 16 ?x
          \<and> length (hexToBytes ky) = 16 \<and> length (hexToBytes v) = 16"
    by (intro exI [of _ "bytesToHex (take 16 ?x)"] exI [of _ "bytesToHex (drop 16 ?x)"])
       (simp add: getDeriveKeyAndIv_eq length_bytesToHex length_derived_bytes
          hexToBytes_bytesToHex split)
  show ?thesis
    using result
    by (simp add: generateSHA256_def length_sha256 atob_masterKey hexToBytes_masterKey
          length_master_key xorBuffers_cyclic del: replicate.simps concat.simps)
qed

section \<open>Proofs: decryption\<close>

lemma unat_of_nat_byte: "n \<le> 16 \<Longrightarrow> unat (of_nat n :: byte) = n"
  by (simp add: unsigned_of_nat take_bit_nat_eq_self)

lemma unpad_padded:
  assumes "1 \<le> n" and "n \<le> 16"
  shows "unpad (body @ replicate n (of_nat n)) = Some body"
proof -
  obtain m where m: "n = Suc m" using assms(1) by (cases n) simp_all
  have r: "rev (body @ replicate n (of_nat n :: byte)) = of_nat n # (replicate m (of_nat n) @ rev body)"
    by (simp add: m replicate_append_same)
  show ?thesis
    unfolding unpad_def r using assms by (simp add: unat_of_nat_byte Let_def)
qed

lemma unpad_Some:
  assumes "unpad p = Some body"
  shows "pkcs7_padded body p"
proof -
  from assms obtain l r where rv: "rev p = l # r"
    by (cases "rev p") (simp_all add: unpad_def)
  let ?n = "unat l"
  from assms rv have n: "1 \<le> ?n" "?n \<le> 16" "?n \<le> length p"
    and d: "drop (length p - ?n) p = replicate ?n l"
    and b: "body = take (length p - ?n) p"
    by (auto simp: unpad_def Let_def split: if_splits)
  have "p = take (length p - ?n) p @ drop (length p - ?n) p" by simp
  with d b have "p = body @ replicate ?n (of_nat ?n)" by simp
  with n show ?thesis unfolding pkcs7_padded_def by blast
qed

lemma unpad_iff: "unpad p = Some body \<longleftrightarrow> pkcs7_padded body p"
  by (auto simp: pkcs7_padded_def unpad_padded dest: unpad_Some [unfolded pkcs7_padded_def])

lemma unpad_None: "unpad p = None \<longleftrightarrow> (\<forall>body. \<not> pkcs7_padded body p)"
  using unpad_iff [of p] by (cases "unpad p") auto

text \<open>
  C8. With the libraries as the specification describes them: a ciphertext whose
  length is not a multiple of the block size of 16 bytes makes \<open>decryptAndInflate\<close>
  fail with \<open>CryptoError\<close>, whatever the key; with a 128-bit key and a 16-byte IV, so
  does a ciphertext of whole blocks whose CBC plaintext has no valid PKCS#7 padding;
  when the padding is valid, decryption succeeds, and \<open>decryptAndInflate\<close> fails with
  \<open>InflateError\<close>, a different error, if the decompressor rejects the plaintext, and
  otherwise returns the decoding of the decompressed bytes.
\<close>

theorem decryptAndInflate_outcomes:
  "(length data mod 16 \<noteq> 0
      \<longrightarrow> decryptAndInflate cipher inflate decode data keyHex ivHex = Inl CryptoError)
   \<and> (length (hexToBytes keyHex) = 16 \<and> length (hexToBytes ivHex) = 16 \<and> length data mod 16 = 0
        \<and> (\<forall>body. \<not> pkcs7_padded body
                     (cbc_plaintext cipher (hexToBytes keyHex) (hexToBytes ivHex) data))
      \<longrightarrow> decryptAndInflate cipher inflate decode data keyHex ivHex = Inl CryptoError)
   \<and> (length (hexToBytes keyHex) = 16 \<and> length (hexToBytes ivHex) = 16 \<and> length data mod 16 = 0
        \<and> pkcs7_padded plain (cbc_plaintext cipher (hexToBytes keyHex) (hexToBytes ivHex) data)
      \<longrightarrow> subtle_decrypt cipher (hexToBytes ivHex) (hexToBytes keyHex) data = Inr plain
          \<and> (inflate plain = None
                \<longrightarrow> decryptAndInflate cipher inflate decode data keyHex ivHex = Inl InflateError)
          \<and> (\<forall>out. inflate plain = Some out
                \<longrightarrow> decryptAndInflate cipher inflate decode data keyHex ivHex = Inr (decode out)))
   \<and> CryptoError \<noteq> InflateError"
proof (intro conjI impI)
  assume "length data mod 16 \<noteq> 0"
  then show "decryptAndInflate cipher inflate decode data keyHex ivHex = Inl CryptoError"
    by (simp add: decryptAndInflate_def importKey_def subtle_decrypt_def)
next
  assume a: "length (hexToBytes keyHex) = 16 \<and> length (hexToBytes ivHex) = 16
      \<and> length data mod 16 = 0
      \<and> (\<forall>body. \<not> pkcs7_padded body
                     (cbc_plaintext cipher (hexToBytes keyHex) (hexToBytes ivHex) data))"
  then have "unpad (cbc_plaintext cipher (hexToBytes keyHex) (hexToBytes ivHex) data) = None"
    by (simp add: unpad_None)
  with a show "decryptAndInflate cipher inflate decode data keyHex ivHex = Inl CryptoError"
    by (simp add: decryptAndInflate_def importKey_def subtle_decrypt_def)
next
  assume a: "length (hexToBytes keyHex) = 16 \<and> length (hexToBytes ivHex) = 16
      \<and> length data mod 16 = 0
      \<and> pkcs7_padded plain (cbc_plaintext cipher (hexToBytes keyHex) (hexToBytes ivHex) data)"
  then have u: "unpad (cbc_plaintext cipher (hexToBytes keyHex) (hexToBytes ivHex) data) = Some plain"
    by (simp add: unpad_iff)
  with a show d: "subtle_decrypt cipher (hexToBytes ivHex) (hexToBytes keyHex) data = Inr plain"
    by (simp add: subtle_decrypt_def)
  {
    assume "inflate plain = None"
    with a d show "decryptAndInflate cipher inflate decode data keyHex ivHex = Inl InflateError"
      by (simp add: decryptAndInflate_def importKey_def)
  }
  show "\<forall>out. inflate plain = Some out
          \<longrightarrow> decryptAndInflate cipher inflate decode data keyHex ivHex = Inr (decode out)"
    using a d by (simp add: decryptAndInflate_def importKey_def)
next
  show "CryptoError \<noteq> InflateError" by simp
qed

theorem decryptAndInflate_outcomes_witness:
  "decryptAndInflate sample_cipher sample_inflate sample_decode
       sample_ciphertext sample_keyHex sample_ivHex = Inr ''Hi''
   \<and> decryptAndInflate sample_cipher (\<lambda>p. None) sample_decode
       sample_ciphertext sample_keyHex sample_ivHex = Inl InflateError
   \<and> decryptAndInflate sample_cipher sample_inflate sample_decode
       (take 15 sample_ciphertext) sample_keyHex sample_ivHex = Inl CryptoError"
proof -
  have k: "length (hexToBytes sample_keyHex) = 16" and i: "length (hexToBytes sample_ivHex) = 16"
    and l: "length sample_ciphertext mod 16 = 0"
    and s: "length (take 15 sample_ciphertext) mod 16 \<noteq> 0"
    by code_simp+
  have c: "cbc_plaintext sample_cipher (hexToBytes sample_keyHex) (hexToBytes sample_ivHex)
             sample_ciphertext
           = [0x78, 0x48, 0x69] @ replicate 13 (of_nat 13)"
    by code_simp
  have p: "pkcs7_padded [0x78, 0x48, 0x69]
             (cbc_plaintext sample_cipher (hexToBytes sample_keyHex) (hexToBytes sample_ivHex)
                sample_ciphertext)"
    unfolding c pkcs7_padded_def by (intro exI [of _ 13]) simp
  have f: "sample_inflate [0x78, 0x48, 0x69] = Some [0x48, 0x69]" by code_simp
  have d: "sample_decode [0x48, 0x69] = ''Hi''" by code_simp
  from decryptAndInflate_outcomes
         [of sample_ciphertext sample_cipher sample_inflate sample_decode sample_keyHex sample_ivHex
             "[0x78, 0x48, 0x69]"] k i l p f d
  have one: "decryptAndInflate sample_cipher sample_inflate sample_decode
       sample_ciphertext sample_keyHex sample_ivHex = Inr ''Hi''"
    by simp
  from decryptAndInflate_outcomes
         [of sample_ciphertext sample_cipher "\<lambda>p. None" sample_decode sample_keyHex sample_ivHex
             "[0x78, 0x48, 0x69]"] k i l p
  have two: "decryptAndInflate sample_cipher (\<lambda>p. None) sample_decode
       sample_ciphertext sample_keyHex sample_ivHex = Inl InflateError"
    by simp
  from decryptAndInflate_outcomes
         [of "take 15 sample_ciphertext" sample_cipher sample_inflate sample_decode
             sample_keyHex sample_ivHex] s
  have three: "decryptAndInflate sample_cipher sample_inflate sample_decode
       (take 15 sample_ciphertext) sample_keyHex sample_ivHex = Inl CryptoError"
    by blast
  from one two three show ?thesis by blast
qed

section \<open>Proofs: discovery\<close>

declare show_nat.simps [simp del]

lemma fetched_loop_body: "fetched (loop_body p lang net st) = fetched st + 1"
  by (auto simp: loop_body_def advance_def try_block_def get_prop_def Let_def
        split: response.splits option.splits sum.splits)

lemma notFoundCount_loop_body:
  "notFoundCount (loop_body p lang net st)
     = (if is_success (net (fetched st)) then 0 else notFoundCount st + 1)"
  by (auto simp: loop_body_def advance_def try_block_def get_prop_def is_success_def Let_def
        split: response.splits option.splits sum.splits)

lemma discovered_loop_body:
  "discovered (loop_body p lang net st)
     = discovered st
       @ yield p lang (issueDate_of (currentYear st) (currentMonth st)) (net (fetched st))"
  by (auto simp: loop_body_def advance_def try_block_def get_prop_def yield_def url_of_def Let_def
        split: response.splits option.splits sum.splits)

lemma calendar_loop_body:
  "currentMonth (loop_body p lang net st) = currentMonth (advance p st)
   \<and> currentYear (loop_body p lang net st) = currentYear (advance p st)"
  by (auto simp: loop_body_def advance_def try_block_def get_prop_def Let_def
        split: response.splits option.splits sum.splits)

lemma split12: "r < 12 \<Longrightarrow> (12 * q + r) mod 12 = (r::nat) \<and> (12 * q + r) div 12 = q"
  by simp
lemma calendar_step:
  fixes k s :: nat
  assumes "s \<le> 12" and "M = k mod 12 + 1" and "Y = 2025 + k div 12"
  shows "(k + s) mod 12 + 1 = (if M + s > 12 then M + s - 12 else M + s)
         \<and> 2025 + (k + s) div 12 = (if M + s > 12 then Y + 1 else Y)"
proof -
  obtain q r where k: "k = 12 * q + r" and r: "r < 12"
    by (metis mod_less_divisor mult_div_mod_eq zero_less_numeral)
  have kr: "k mod 12 = r" and kq: "k div 12 = q"
    using split12 [OF r, of q] k by simp_all
  show ?thesis
  proof (cases "r + s < 12")
    case True
    have "k + s = 12 * q + (r + s)" using k by simp
    then have "(k + s) mod 12 = r + s \<and> (k + s) div 12 = q"
      using split12 [OF True, of q] by (simp only:)
    with True show ?thesis unfolding assms(2,3) kr kq by simp
  next
    case False
    then have lt: "r + s - 12 < 12" using r assms(1) by simp
    have "k + s = 12 * (q + 1) + (r + s - 12)" using k False by simp
    then have "(k + s) mod 12 = r + s - 12 \<and> (k + s) div 12 = q + 1"
      using split12 [OF lt, of "q + 1"] by (simp only:)
    with False show ?thesis unfolding assms(2,3) kr kq by simp
  qed
qed

lemma advance_calendar:
  assumes "currentMonth st = k mod 12 + 1" and "currentYear st = 2025 + k div 12"
  shows "currentMonth (advance p st) = (k + (if p = ''mwb'' then 2 else 1)) mod 12 + 1
       \<and> currentYear (advance p st) = 2025 + (k + (if p = ''mwb'' then 2 else 1)) div 12"
proof (cases "p = ''mwb''")
  case True
  then have s: "(if p = ''mwb'' then 2 else 1) = (2::nat)" by simp
  have le: "(2::nat) \<le> 12" by simp
  have "currentMonth (advance p st)
          = (if currentMonth st + 2 > 12 then currentMonth st + 2 - 12 else currentMonth st + 2)
      \<and> currentYear (advance p st)
          = (if currentMonth st + 2 > 12 then currentYear st + 1 else currentYear st)"
    using True by (simp add: advance_def Let_def)
  with calendar_step [OF le assms] show ?thesis unfolding s by (simp only:)
next
  case False
  then have s: "(if p = ''mwb'' then 2 else 1) = (1::nat)" by simp
  have le: "(1::nat) \<le> 12" by simp
  have "currentMonth (advance p st)
          = (if currentMonth st + 1 > 12 then currentMonth st + 1 - 12 else currentMonth st + 1)
      \<and> currentYear (advance p st)
          = (if currentMonth st + 1 > 12 then currentYear st + 1 else currentYear st)"
    using False by (simp add: advance_def Let_def)
  with calendar_step [OF le assms] show ?thesis unfolding s by (simp only:)
qed

lemma months_at_Suc:
  "months_at p nm (Suc n) = months_at p nm n + (if p = ''mwb'' then 2 else 1)"
  by (simp add: months_at_def)

text \<open>The state after \<open>n\<close> turns of the loop body.\<close>

lemma initial_calendar:
  assumes "nm < 12"
  shows "currentMonth (initial_state p nm) = months_at p nm 0 mod 12 + 1"
    and "currentYear (initial_state p nm) = 2025 + months_at p nm 0 div 12"
proof -
  have le: "nm div 2 * 2 \<le> nm" by presburger
  from le assms have "nm div 2 * 2 < 12" by (rule le_less_trans)
  with assms have k: "months_at p nm 0 < 12"
    by (simp add: months_at_def del: div_times_less_eq_dividend)
  have e1: "Suc nm mod 2 = 0 \<Longrightarrow> nm = Suc (nm div 2 * 2)" by presburger
  have e2: "Suc nm mod 2 = Suc 0 \<Longrightarrow> nm = nm div 2 * 2" by presburger
  have "currentMonth (initial_state p nm) = months_at p nm 0 + 1"
    using e1 e2 by (auto simp: initial_state_def months_at_def Let_def)
  with k show "currentMonth (initial_state p nm) = months_at p nm 0 mod 12 + 1"
    by simp
  from k show "currentYear (initial_state p nm) = 2025 + months_at p nm 0 div 12"
    by (simp add: initial_state_def Let_def)
qed


text \<open>The state after \<open>n\<close> turns of the loop body.\<close>

lemma iterate_state:
  assumes "nm < 12"
  shows "fetched ((loop_body p lang net ^^ n) (initial_state p nm)) = n
      \<and> notFoundCount ((loop_body p lang net ^^ n) (initial_state p nm)) = misses_before net n
      \<and> currentMonth ((loop_body p lang net ^^ n) (initial_state p nm)) = months_at p nm n mod 12 + 1
      \<and> currentYear ((loop_body p lang net ^^ n) (initial_state p nm)) = 2025 + months_at p nm n div 12
      \<and> discovered ((loop_body p lang net ^^ n) (initial_state p nm)) = collected p lang nm net n"
proof (induction n)
  case 0
  show ?case
    using initial_calendar [OF assms, of p] by (simp add: initial_state_def Let_def)
next
  case (Suc n)
  let ?s = "(loop_body p lang net ^^ n) (initial_state p nm)"
  from Suc.IH have f: "fetched ?s = n"
    and c: "notFoundCount ?s = misses_before net n"
    and m: "currentMonth ?s = months_at p nm n mod 12 + 1"
    and y: "currentYear ?s = 2025 + months_at p nm n div 12"
    and d: "discovered ?s = collected p lang nm net n"
    by simp_all
  have "fetched (loop_body p lang net ?s) = Suc n"
    by (simp add: fetched_loop_body f)
  moreover have "notFoundCount (loop_body p lang net ?s) = misses_before net (Suc n)"
    by (simp add: notFoundCount_loop_body f c)
  moreover have "currentMonth (loop_body p lang net ?s) = months_at p nm (Suc n) mod 12 + 1"
    using advance_calendar [OF m y, of p] by (simp only: calendar_loop_body months_at_Suc)
  moreover have "currentYear (loop_body p lang net ?s) = 2025 + months_at p nm (Suc n) div 12"
    using advance_calendar [OF m y, of p] by (simp only: calendar_loop_body months_at_Suc)
  moreover have "discovered (loop_body p lang net ?s) = collected p lang nm net (Suc n)"
    by (simp only: discovered_loop_body f d m y collected.simps issue_at_def)
  ultimately show ?case by (simp only: funpow.simps comp_apply)
qed

text \<open>The loop returns the state after \<open>n\<close> turns when that is the first state in which
  the counter has reached the threshold, and only then.\<close>

lemma discover_loop_returns:
  assumes "\<not> notFoundCount ((loop_body p lang net ^^ n) st) < mx"
    and "\<forall>k<n. notFoundCount ((loop_body p lang net ^^ k) st) < mx"
  shows "discover_loop mx p lang net st = Some ((loop_body p lang net ^^ n) st)"
  using assms
proof (induction n arbitrary: st)
  case 0
  then show ?case by (subst discover_loop.simps) simp
next
  case (Suc n)
  from Suc.prems(2) have now: "notFoundCount st < mx" by (metis funpow_0 zero_less_Suc)
  have "\<forall>k<n. notFoundCount ((loop_body p lang net ^^ k) (loop_body p lang net st)) < mx"
  proof (intro allI impI)
    fix k assume "k < n"
    with Suc.prems(2) have "notFoundCount ((loop_body p lang net ^^ Suc k) st) < mx" by blast
    then show "notFoundCount ((loop_body p lang net ^^ k) (loop_body p lang net st)) < mx"
      by (simp only: funpow_Suc_right comp_apply)
  qed
  moreover from Suc.prems(1)
  have "\<not> notFoundCount ((loop_body p lang net ^^ n) (loop_body p lang net st)) < mx"
    by (simp add: funpow_Suc_right del: funpow.simps)
  ultimately have "discover_loop mx p lang net (loop_body p lang net st)
      = Some ((loop_body p lang net ^^ n) (loop_body p lang net st))"
    by (rule Suc.IH [rotated])
  with now show ?case
    by (subst discover_loop.simps) (simp only: funpow_Suc_right comp_apply if_True)
qed

lemma discover_loop_only_then:
  assumes "discover_loop mx p lang net st = Some r"
  shows "\<exists>n. r = (loop_body p lang net ^^ n) st
           \<and> \<not> notFoundCount r < mx
           \<and> (\<forall>k<n. notFoundCount ((loop_body p lang net ^^ k) st) < mx)"
proof (rule discover_loop.raw_induct
    [where P = "\<lambda>mx p lang net st r. \<exists>n. r = (loop_body p lang net ^^ n) st
           \<and> \<not> notFoundCount r < mx
           \<and> (\<forall>k<n. notFoundCount ((loop_body p lang net ^^ k) st) < mx)", OF _ assms])
  fix loop :: "nat \<Rightarrow> string \<Rightarrow> string \<Rightarrow> (nat \<Rightarrow> response) \<Rightarrow> discover_state \<Rightarrow> discover_state option"
  fix mx p lang net st r
  assume IH: "\<And>mx p lang net st r. loop mx p lang net st = Some r \<Longrightarrow>
      \<exists>n. r = (loop_body p lang net ^^ n) st
           \<and> \<not> notFoundCount r < mx
           \<and> (\<forall>k<n. notFoundCount ((loop_body p lang net ^^ k) st) < mx)"
  assume step: "(if notFoundCount st < mx then loop mx p lang net (loop_body p lang net st)
                 else Some st) = Some r"
  show "\<exists>n. r = (loop_body p lang net ^^ n) st
           \<and> \<not> notFoundCount r < mx
           \<and> (\<forall>k<n. notFoundCount ((loop_body p lang net ^^ k) st) < mx)"
  proof (cases "notFoundCount st < mx")
    case False
    with step have "r = st" by simp
    with False show ?thesis by (intro exI [of _ 0]) simp
  next
    case True
    with step have "loop mx p lang net (loop_body p lang net st) = Some r" by simp
    from IH [OF this] obtain n where
      r: "r = (loop_body p lang net ^^ n) (loop_body p lang net st)"
      and stop: "\<not> notFoundCount r < mx"
      and before: "\<forall>k<n. notFoundCount ((loop_body p lang net ^^ k) (loop_body p lang net st)) < mx"
      by blast
    have "\<forall>k<Suc n. notFoundCount ((loop_body p lang net ^^ k) st) < mx"
    proof (intro allI impI)
      fix k assume k: "k < Suc n"
      show "notFoundCount ((loop_body p lang net ^^ k) st) < mx"
      proof (cases k)
        case 0
        with True show ?thesis by simp
      next
        case (Suc j)
        with k have "j < n" by simp
        with before have "notFoundCount ((loop_body p lang net ^^ j) (loop_body p lang net st)) < mx"
          by blast
        with Suc show ?thesis by (simp only: funpow_Suc_right comp_apply)
      qed
    qed
    moreover from r have "r = (loop_body p lang net ^^ Suc n) st"
      by (simp only: funpow_Suc_right comp_apply)
    ultimately show ?thesis using stop by blast
  qed
qed

lemma discover_run_returns:
  assumes "nm < 12"
    and "misses_before net n = maxNotFound"
    and "\<forall>k<n. misses_before net k < maxNotFound"
  shows "\<exists>st. discover_run p lang nm net = Some st \<and> fetched st = n
           \<and> notFoundCount st = maxNotFound
           \<and> discovered st = collected p lang nm net n"
proof -
  let ?st = "(loop_body p lang net ^^ n) (initial_state p nm)"
  note it = iterate_state [OF assms(1), where p = p and lang = lang and net = net]
  have "\<not> notFoundCount ?st < maxNotFound"
    using it [of n] assms(2) by simp
  moreover have "\<forall>k<n. notFoundCount ((loop_body p lang net ^^ k) (initial_state p nm)) < maxNotFound"
    using it assms(3) by simp
  ultimately have "discover_loop maxNotFound p lang net (initial_state p nm) = Some ?st"
    by (rule discover_loop_returns)
  then show ?thesis
    using it [of n] assms(2) by (simp add: discover_run_def)
qed

lemma discover_run_only_then:
  assumes "nm < 12" and "discover_run p lang nm net = Some st"
  shows "misses_before net (fetched st) = maxNotFound
       \<and> (\<forall>k<fetched st. misses_before net k < maxNotFound)
       \<and> discovered st = collected p lang nm net (fetched st)"
proof -
  note it = iterate_state [OF assms(1), where p = p and lang = lang and net = net]
  from assms(2) obtain n where
    st: "st = (loop_body p lang net ^^ n) (initial_state p nm)"
    and stop: "\<not> notFoundCount st < maxNotFound"
    and before: "\<forall>k<n. notFoundCount ((loop_body p lang net ^^ k) (initial_state p nm)) < maxNotFound"
    unfolding discover_run_def by (blast dest: discover_loop_only_then)
  have f: "fetched st = n" using it [of n] st by simp
  have b: "\<forall>k<n. misses_before net k < maxNotFound" using before it by simp
  have "misses_before net n \<le> maxNotFound"
  proof (cases n)
    case 0
    then show ?thesis by simp
  next
    case (Suc j)
    with b have "misses_before net j < maxNotFound" by simp
    with Suc show ?thesis by simp
  qed
  moreover have "\<not> misses_before net n < maxNotFound" using stop it [of n] st by simp
  ultimately have "misses_before net n = maxNotFound" by simp
  with f b it [of n] st show ?thesis by simp
qed

subsection \<open>Issue dates are read back\<close>

lemma read_nat_snoc: "read_nat (s @ [c]) = 10 * read_nat s + (code c - 48)"
  by (simp add: read_nat_def)

lemma read_nat_digit: "d < 10 \<Longrightarrow> read_nat [char_of (48 + d)] = d"
  by (simp add: read_nat_def code_char_of)

lemma read_show_nat: "read_nat (show_nat n) = n"
proof (induction n rule: show_nat.induct)
  case (1 n)
  show ?case
  proof (cases "n < 10")
    case True
    then show ?thesis by (subst show_nat.simps) (simp add: read_nat_digit)
  next
    case False
    have d: "n mod 10 < 10" by simp
    have "read_nat (show_nat n) = 10 * read_nat (show_nat (n div 10)) + (code (char_of (48 + n mod 10)) - 48)"
      using False by (subst show_nat.simps) (simp only: if_False read_nat_snoc)
    also have "code (char_of (48 + n mod 10)) - 48 = n mod 10"
      using d by (simp add: code_char_of)
    also have "read_nat (show_nat (n div 10)) = n div 10"
      using 1 False by simp
    finally show ?thesis by simp
  qed
qed

lemma two_digits:
  assumes "m < 100"
  shows "padStart 2 CHR ''0'' (show_nat m) = [char_of (48 + m div 10), char_of (48 + m mod 10)]"
proof (cases "m < 10")
  case True
  then have "show_nat m = [char_of (48 + m)]" by (subst show_nat.simps) simp
  with True show ?thesis by (simp add: padStart_def char_of_48)
next
  case False
  from assms have "m div 10 < 10" by simp
  then have "show_nat (m div 10) = [char_of (48 + m div 10)]" by (subst show_nat.simps) simp
  with False have "show_nat m = [char_of (48 + m div 10), char_of (48 + m mod 10)]"
    by (subst show_nat.simps) simp
  then show ?thesis by (simp add: padStart_def)
qed

lemma read_issueDate_of:
  assumes "m < 100"
  shows "read_nat (issueDate_of y m) = 100 * y + m"
proof -
  have a: "m div 10 < 10" using assms by simp
  have b: "m mod 10 < 10" by simp
  have "issueDate_of y m = (show_nat y @ [char_of (48 + m div 10)]) @ [char_of (48 + m mod 10)]"
    by (simp add: issueDate_of_def two_digits [OF assms])
  then have "read_nat (issueDate_of y m)
      = 10 * (10 * read_nat (show_nat y) + (code (char_of (48 + m div 10)) - 48))
        + (code (char_of (48 + m mod 10)) - 48)"
    by (simp only: read_nat_snoc)
  also have "code (char_of (48 + m div 10)) - 48 = m div 10"
    using a by (simp add: code_char_of)
  also have "code (char_of (48 + m mod 10)) - 48 = m mod 10"
    using b by (simp add: code_char_of)
  also have "10 * (10 * read_nat (show_nat y) + m div 10) + m mod 10 = 100 * y + (10 * (m div 10) + m mod 10)"
    by (simp add: read_show_nat)
  also have "10 * (m div 10) + m mod 10 = m" by simp
  finally show ?thesis .
qed

lemma months_at_inj: "months_at p nm i = months_at p nm j \<Longrightarrow> i = j"
  by (simp add: months_at_def split: if_splits)

lemma mod12_bound: "(x::nat) mod 12 + 1 < 100"
proof -
  have "x mod 12 < 12" by simp
  then have "Suc (x mod 12) \<le> 12" by (rule Suc_leI)
  also have "(12::nat) < 100" by simp
  finally show ?thesis by simp
qed

lemma hundreds_inj:
  fixes a b c d :: nat
  assumes "100 * a + b = 100 * c + d" and "b < 100" and "d < 100"
  shows "a = c \<and> b = d"
proof -
  have "(100 * a + b) div 100 = a" and "(100 * c + d) div 100 = c"
    using assms(2,3) by simp_all
  with assms(1) have "a = c" by simp
  with assms(1) show ?thesis by simp
qed

lemma issue_at_inj:
  assumes "issue_at p nm i = issue_at p nm j"
  shows "i = j"
proof -
  let ?k = "months_at p nm i" and ?l = "months_at p nm j"
  have "read_nat (issue_at p nm i) = read_nat (issue_at p nm j)" using assms by simp
  then have "100 * (2025 + ?k div 12) + (?k mod 12 + 1) = 100 * (2025 + ?l div 12) + (?l mod 12 + 1)"
    unfolding issue_at_def by (simp only: read_issueDate_of [OF mod12_bound])
  then have "2025 + ?k div 12 = 2025 + ?l div 12 \<and> ?k mod 12 + 1 = ?l mod 12 + 1"
    using mod12_bound mod12_bound by (rule hundreds_inj)
  then have "?k div 12 = ?l div 12" and "?k mod 12 = ?l mod 12"
    by (simp_all only: add_left_cancel add_right_cancel)
  then have "?k = ?l" by (metis mult_div_mod_eq)
  then show ?thesis by (rule months_at_inj)
qed

lemma issue_yield: "d \<in> set (yield p lang date r) \<Longrightarrow> pub d = p \<and> issue d = date \<and> language d = lang"
  by (auto simp: yield_def split: response.splits option.splits if_splits)

lemma length_yield: "length (yield p lang date r) \<le> 1"
  by (auto simp: yield_def split: response.splits option.splits)

lemma issues_collected:
  "d \<in> set (collected p lang nm net n) \<Longrightarrow> \<exists>i<n. issue d = issue_at p nm i"
proof (induction n)
  case 0
  then show ?case by simp
next
  case (Suc n)
  then show ?case by (auto dest: issue_yield intro: less_SucI)
qed

lemma distinct_issues_collected: "distinct (map issue (collected p lang nm net n))"
proof (induction n)
  case 0
  then show ?case by simp
next
  case (Suc n)
  have one: "distinct (map issue (yield p lang (issue_at p nm n) (net n)))"
    using length_yield [of p lang "issue_at p nm n" "net n"]
    by (cases "yield p lang (issue_at p nm n) (net n)") auto
  have "issue d \<noteq> issue e"
    if "d \<in> set (collected p lang nm net n)" and "e \<in> set (yield p lang (issue_at p nm n) (net n))"
    for d e
  proof
    assume eq: "issue d = issue e"
    from that(1) obtain i where i: "i < n" "issue d = issue_at p nm i"
      by (blast dest: issues_collected)
    from that(2) have "issue e = issue_at p nm n" by (simp add: issue_yield)
    with eq i have "i = n" by (metis issue_at_inj)
    with i show False by simp
  qed
  with Suc one show ?case by auto
qed

lemma distinct_triples_collected:
  "distinct (map (\<lambda>d. (pub d, issue d, language d)) (collected p lang nm net n))"
  using distinct_issues_collected [of p lang nm net n]
  by (auto simp: distinct_map inj_on_def)

subsection \<open>The claims about \<open>discover\<close>\<close>

text \<open>
  C3. A rejected \<open>fetch\<close> and every response with a status other than 200 (a 404 or
  any other) are non-success responses, and the loop body adds exactly one to the
  counter on each of them: no branch but the success branch sets it back. For every
  sequence of responses \<open>net\<close>: if call \<open>n\<close> is the first before which
  \<open>maxNotFound\<close> (which is 1) non-success responses in a row have come, \<open>discover\<close>
  returns after exactly \<open>n\<close> calls, with the publications collected from the
  responses \<open>0\<close> to \<open>n - 1\<close>; and whenever \<open>discover\<close> returns, it has stopped at such a
  call.
\<close>

theorem discover_stops_after_maxNotFound_misses:
  assumes "nm < 12"
  shows "maxNotFound = 1
       \<and> \<not> is_success NetworkError
       \<and> (\<forall>status body. status \<noteq> 200 \<longrightarrow> \<not> is_success (Response status body))
       \<and> (\<forall>st. \<not> is_success (net (fetched st))
              \<longrightarrow> notFoundCount (loop_body p lang net st) = notFoundCount st + 1)
       \<and> (\<forall>n. misses_before net n = maxNotFound \<and> (\<forall>k<n. misses_before net k < maxNotFound)
              \<longrightarrow> (\<exists>st. discover_run p lang nm net = Some st \<and> fetched st = n
                        \<and> notFoundCount st = maxNotFound)
                  \<and> discover p lang nm net = Some (collected p lang nm net n))
       \<and> (\<forall>st. discover_run p lang nm net = Some st
              \<longrightarrow> misses_before net (fetched st) = maxNotFound
                  \<and> (\<forall>k<fetched st. misses_before net k < maxNotFound)
                  \<and> discover p lang nm net = Some (collected p lang nm net (fetched st)))"
proof -
  have returns: "(\<exists>st. discover_run p lang nm net = Some st \<and> fetched st = n
                        \<and> notFoundCount st = maxNotFound)
                  \<and> discover p lang nm net = Some (collected p lang nm net n)"
    if "misses_before net n = maxNotFound \<and> (\<forall>k<n. misses_before net k < maxNotFound)" for n
    using discover_run_returns [OF assms, of net n p lang] that
    by (auto simp: discover_def)
  have only_then: "misses_before net (fetched st) = maxNotFound
                  \<and> (\<forall>k<fetched st. misses_before net k < maxNotFound)
                  \<and> discover p lang nm net = Some (collected p lang nm net (fetched st))"
    if "discover_run p lang nm net = Some st" for st
    using discover_run_only_then [OF assms that] that by (simp add: discover_def)
  have "maxNotFound = 1" by (simp add: maxNotFound_def)
  moreover have "\<not> is_success NetworkError" by (simp add: is_success_def)
  moreover have "\<forall>status body. status \<noteq> 200 \<longrightarrow> \<not> is_success (Response status body)"
    by (simp add: is_success_def)
  moreover have "\<forall>st. \<not> is_success (net (fetched st))
              \<longrightarrow> notFoundCount (loop_body p lang net st) = notFoundCount st + 1"
    by (simp add: notFoundCount_loop_body)
  ultimately show ?thesis using returns only_then by blast
qed

lemma sample_net_misses:
  "misses_before sample_net 4 = maxNotFound \<and> (\<forall>k<4. misses_before sample_net k < maxNotFound)"
proof -
  have m: "misses_before sample_net 0 < maxNotFound" "misses_before sample_net 1 < maxNotFound"
    "misses_before sample_net 2 < maxNotFound" "misses_before sample_net 3 < maxNotFound"
    by code_simp+
  have "misses_before sample_net k < maxNotFound" if "k < 4" for k
  proof -
    from that consider "k = 0" | "k = 1" | "k = 2" | "k = 3" by linarith
    then show ?thesis using m by cases simp_all
  qed
  moreover have "misses_before sample_net 4 = maxNotFound" by code_simp
  ultimately show ?thesis by blast
qed

lemma sample_collected:
  "map issue (collected ''mwb'' ''S'' 9 sample_net 4) = [''202509'', ''202511'', ''202601'']"
  by code_simp

theorem discover_stops_witness:
  "(\<exists>st. discover_run ''mwb'' ''S'' 9 sample_net = Some st \<and> fetched st = 4 \<and> notFoundCount st = 1)
   \<and> map_option (map issue) (discover ''mwb'' ''S'' 9 sample_net)
       = Some [''202509'', ''202511'', ''202601'']"
proof -
  have nm: "(9::nat) < 12" by simp
  from discover_stops_after_maxNotFound_misses [OF nm, of sample_net "''mwb''" "''S''"]
  have one: "maxNotFound = 1"
    and run: "\<forall>n. misses_before sample_net n = maxNotFound
                    \<and> (\<forall>k<n. misses_before sample_net k < maxNotFound)
              \<longrightarrow> (\<exists>st. discover_run ''mwb'' ''S'' 9 sample_net = Some st \<and> fetched st = n
                        \<and> notFoundCount st = maxNotFound)
                  \<and> discover ''mwb'' ''S'' 9 sample_net = Some (collected ''mwb'' ''S'' 9 sample_net n)"
    by blast+
  from run sample_net_misses
  have "(\<exists>st. discover_run ''mwb'' ''S'' 9 sample_net = Some st \<and> fetched st = 4
                        \<and> notFoundCount st = maxNotFound)
      \<and> discover ''mwb'' ''S'' 9 sample_net = Some (collected ''mwb'' ''S'' 9 sample_net 4)"
    by blast
  then show ?thesis by (simp add: one sample_collected)
qed

text \<open>
  C7. For every sequence of responses, a list that \<open>discover\<close> returns has no two
  entries with the same pub, issue and language; and \<open>discover\<close> does return such a
  list whenever the responses make the loop stop.
\<close>

theorem discover_no_duplicate_triples:
  assumes "nm < 12"
  shows "(\<forall>ds. discover p lang nm net = Some ds
            \<longrightarrow> distinct (map (\<lambda>d. (pub d, issue d, language d)) ds))
       \<and> (\<forall>n. misses_before net n = maxNotFound \<and> (\<forall>k<n. misses_before net k < maxNotFound)
            \<longrightarrow> (\<exists>ds. discover p lang nm net = Some ds
                      \<and> distinct (map (\<lambda>d. (pub d, issue d, language d)) ds)))"
proof (intro conjI allI impI)
  fix ds assume "discover p lang nm net = Some ds"
  then obtain st where st: "discover_run p lang nm net = Some st" and ds: "ds = discovered st"
    by (auto simp: discover_def)
  from discover_run_only_then [OF assms st] ds
  have "ds = collected p lang nm net (fetched st)" by simp
  then show "distinct (map (\<lambda>d. (pub d, issue d, language d)) ds)"
    by (simp only: distinct_triples_collected)
next
  fix n assume "misses_before net n = maxNotFound \<and> (\<forall>k<n. misses_before net k < maxNotFound)"
  with discover_run_returns [OF assms, of net n p lang]
  have "discover p lang nm net = Some (collected p lang nm net n)"
    by (auto simp: discover_def)
  then show "\<exists>ds. discover p lang nm net = Some ds
                      \<and> distinct (map (\<lambda>d. (pub d, issue d, language d)) ds)"
    by (simp add: distinct_triples_collected)
qed

theorem discover_no_duplicate_triples_witness:
  "\<exists>ds. discover ''mwb'' ''S'' 9 sample_net = Some ds \<and> length ds = 3
        \<and> distinct (map (\<lambda>d. (pub d, issue d, language d)) ds)"
proof -
  have nm: "(9::nat) < 12" by simp
  from discover_no_duplicate_triples [OF nm, of "''mwb''" "''S''" sample_net] sample_net_misses
  obtain ds where ds: "discover ''mwb'' ''S'' 9 sample_net = Some ds"
    and d: "distinct (map (\<lambda>d. (pub d, issue d, language d)) ds)"
    by blast
  have "map_option length (discover ''mwb'' ''S'' 9 sample_net) = Some 3" by code_simp
  with ds d show ?thesis by simp
qed

text \<open>
  C9, as the code has it. A 200 response whose JSON body has a \<open>files\<close> object with no
  entry for the language asked for, where the language code is not the name of one of
  the properties that every object inherits (\<open>constructor\<close>, \<open>toString\<close> and the
  others of \<^const>\<open>object_prototype\<close>), takes the success branch: the loop body pushes
  no publication, sets the counter to zero, and steps to the next issue (two months
  on for \<open>mwb\<close>, one otherwise, into January or February of the next year past
  December). For the stopping rule it is a success: no miss is counted before the
  next call.
\<close>

theorem missing_language_resets_counter:
  assumes "net (fetched st) = Response 200 (Some (Obj ps))"
    and "map_of ps ''files'' = Some (Obj fs)"
    and "map_of fs lang = None"
    and "lang \<notin> set object_prototype"
  shows "discovered (loop_body p lang net st) = discovered st
       \<and> yield p lang date (net (fetched st)) = []
       \<and> notFoundCount (loop_body p lang net st) = 0
       \<and> is_success (net (fetched st))
       \<and> misses_before net (Suc (fetched st)) = 0
       \<and> fetched (loop_body p lang net st) = fetched st + 1
       \<and> currentMonth (loop_body p lang net st)
           = (let m = currentMonth st + (if p = ''mwb'' then 2 else 1)
              in if m > 12 then m - 12 else m)
       \<and> currentYear (loop_body p lang net st)
           = (if currentMonth st + (if p = ''mwb'' then 2 else 1) > 12
              then currentYear st + 1 else currentYear st)"
proof -
  have y: "yield p lang date (net (fetched st)) = []" for date
    using assms
    by (simp add: yield_def nullish_def opt_prop_def member_def inherited_def truthy_def)
  have s: "is_success (net (fetched st))"
    using assms by (simp add: is_success_def nullish_def)
  have "currentMonth (advance p st)
           = (let m = currentMonth st + (if p = ''mwb'' then 2 else 1)
              in if m > 12 then m - 12 else m)"
    and "currentYear (advance p st)
           = (if currentMonth st + (if p = ''mwb'' then 2 else 1) > 12
              then currentYear st + 1 else currentYear st)"
    by (simp_all add: advance_def Let_def)
  with y s show ?thesis
    by (simp add: discovered_loop_body notFoundCount_loop_body fetched_loop_body
          calendar_loop_body)
qed

theorem missing_language_witness:
  "discovered (loop_body ''w'' ''E'' sample_net (initial_state ''w'' 11)) = []
   \<and> notFoundCount (loop_body ''w'' ''E'' sample_net (initial_state ''w'' 11)) = 0
   \<and> fetched (loop_body ''w'' ''E'' sample_net (initial_state ''w'' 11)) = 1
   \<and> currentMonth (loop_body ''w'' ''E'' sample_net (initial_state ''w'' 11)) = 1
   \<and> currentYear (loop_body ''w'' ''E'' sample_net (initial_state ''w'' 11)) = 2026
   \<and> discover ''w'' ''E'' 11 sample_net = Some []"
proof -
  let ?st = "initial_state ''w'' 11"
  have a: "sample_net (fetched ?st)
      = Response 200 (Some (Obj [(''files'',
       Obj [(''S'',
         Obj [(''JWPUB'', Arr [Obj [(''file'', Obj [(''url'', Str ''https://cdn/a.jwpub'')])]]),
              (''EPUB'', Arr [Obj [(''url'', Str ''https://cdn/a.epub'')]])])])]))"
    by (simp add: sample_net_def sample_body_def initial_state_def)
  have b: "map_of [(''files'',
       Obj [(''S'',
         Obj [(''JWPUB'', Arr [Obj [(''file'', Obj [(''url'', Str ''https://cdn/a.jwpub'')])]]),
              (''EPUB'', Arr [Obj [(''url'', Str ''https://cdn/a.epub'')]])])])] ''files''
     = Some (Obj [(''S'',
         Obj [(''JWPUB'', Arr [Obj [(''file'', Obj [(''url'', Str ''https://cdn/a.jwpub'')])]]),
              (''EPUB'', Arr [Obj [(''url'', Str ''https://cdn/a.epub'')]])])])"
    by simp
  have c: "map_of [(''S'',
         Obj [(''JWPUB'', Arr [Obj [(''file'', Obj [(''url'', Str ''https://cdn/a.jwpub'')])]]),
              (''EPUB'', Arr [Obj [(''url'', Str ''https://cdn/a.epub'')]])])] ''E'' = None"
    by simp
  have e: "''E'' \<notin> set object_prototype" by (simp add: object_prototype_def)
  have d: "discover ''w'' ''E'' 11 sample_net = Some []" by code_simp
  from missing_language_resets_counter
         [where net = sample_net and st = "?st" and p = "''w''" and lang = "''E''", OF a b c e] d
  show ?thesis by (simp add: initial_state_def)
qed

text \<open>
  C9 as stated, for every language code, does not hold. The body \<open>{"files": {}}\<close> has a
  \<open>files\<close> object with no entry at all, but for the language code \<open>constructor\<close> the
  read \<open>data.files?.[language]\<close> finds the property of that name which every object
  inherits, and a publication without URLs is pushed for each issue asked for.
\<close>

theorem missing_language_counterexample:
  "empty_files_net 0 = Response 200 (Some (Obj [(''files'', Obj [])]))
   \<and> map_of [] ''constructor'' = (None :: jsval option)
   \<and> discovered (loop_body ''w'' ''constructor'' empty_files_net (initial_state ''w'' 0))
       = [\<lparr>pub = ''w'', issue = ''202501'', language = ''constructor'',
           jwpubUrl = Undefined, epubUrl = Undefined\<rparr>]
   \<and> discovered (loop_body ''w'' ''constructor'' empty_files_net (initial_state ''w'' 0)) \<noteq> []"
  by code_simp

section \<open>Proofs: the content normalizer\<close>

subsection \<open>The tree after the images are rewritten\<close>

lemma concat_select_rewrite:
  assumes "\<And>x. x \<in> set ns \<Longrightarrow> select t (rewrite_images decode x) = map (rewrite_images decode) (select t x)"
  shows "concat (map (select t) (map (rewrite_images decode) ns))
           = map (rewrite_images decode) (concat (map (select t) ns))"
  using assms by (induction ns) simp_all

lemma select_rewrite_images:
  "select t (rewrite_images decode n) = map (rewrite_images decode) (select t n)"
proof (induction n)
  case (Text s)
  then show ?case by simp
next
  case (Element tag attrs cls kids)
  then show ?case using concat_select_rewrite [of kids t decode] by simp
qed

lemma querySelectorAll_rewrite_images:
  "querySelectorAll t (map (rewrite_images decode) root)
     = map (rewrite_images decode) (querySelectorAll t root)"
  unfolding querySelectorAll_def by (rule concat_select_rewrite) (rule select_rewrite_images)

lemma select_tag:
  "e \<in> set (select t n) \<Longrightarrow> \<exists>tag attrs cls kids. e = Element tag attrs cls kids \<and> toLowerCase tag = t"
  by (induction n) (auto split: if_splits)

lemma querySelectorAll_tag:
  "e \<in> set (querySelectorAll t root)
     \<Longrightarrow> \<exists>tag attrs cls kids. e = Element tag attrs cls kids \<and> toLowerCase tag = t"
  by (auto simp: querySelectorAll_def dest: select_tag)

lemma attributes_rewrite_img:
  assumes "e \<in> set (querySelectorAll ''img'' root)"
  shows "attributes (rewrite_images decode e)
           = rewrite_attributes (attr_or_empty decode ''src'' e) (classList e) (attributes e)"
  using querySelectorAll_tag [OF assms] by auto

subsection \<open>Attributes\<close>

lemma lower_names:
  "toLowerCase ''src'' = ''src''" "toLowerCase ''class'' = ''class''"
  "toLowerCase ''width'' = ''width''" "toLowerCase ''height'' = ''height''"
  by code_simp+

lemma named_delete:
  "toLowerCase k \<noteq> toLowerCase name \<Longrightarrow> named name (AList.delete k attrs) = named name attrs"
  by (induction attrs) (auto simp: named_def)

lemma named_setAttribute_other:
  "toLowerCase m \<noteq> toLowerCase name \<Longrightarrow> named name (setAttribute m v attrs) = named name attrs"
  by (induction attrs) (auto simp: named_def)

lemma named_setAttribute:
  "named name (setAttribute name v attrs)
     = (case named name attrs of [] \<Rightarrow> [(name, v)] | (k, w) # ms \<Rightarrow> (k, v) # ms)"
  by (induction attrs) (auto simp: named_def)


lemma keys_setAttribute: "fst ` set (setAttribute name v attrs) \<subseteq> insert name (fst ` set attrs)"
  by (induction attrs) (force split: if_splits)+

lemma named_rewrite_attributes:
  "named ''src'' (rewrite_attributes src cls attrs)
     = (case named ''src'' attrs of
          [] \<Rightarrow> [(''src'', ''./assets/'' @ image_fileName src)]
        | (k, w) # ms \<Rightarrow> (k, ''./assets/'' @ image_fileName src) # ms)"
  by (simp add: rewrite_attributes_def named_setAttribute_other named_delete named_setAttribute
        lower_names split: list.splits)

lemma written_src_rewrite_attributes:
  "(case named ''src'' (rewrite_attributes src cls attrs) of [] \<Rightarrow> None | (k, v) # _ \<Rightarrow> Some v)
     = Some (''./assets/'' @ image_fileName src)"
  by (simp add: named_rewrite_attributes split: list.splits)

lemma no_size_rewrite_attributes:
  "''width'' \<notin> fst ` set (rewrite_attributes src cls attrs)"
  "''height'' \<notin> fst ` set (rewrite_attributes src cls attrs)"
proof -
  let ?a = "setAttribute ''src'' (''./assets/'' @ image_fileName src) attrs"
  let ?b = "AList.delete ''height'' (AList.delete ''width'' ?a)"
  have keys: "fst ` set (rewrite_attributes src cls attrs) \<subseteq> insert ''class'' (fst ` set ?b)"
    unfolding rewrite_attributes_def by (rule keys_setAttribute)
  have "''width'' \<notin> fst ` set ?b"
    using delete_notin_dom [of "''width''" ?a] dom_delete_subset [of "''height''"] by blast
  with keys show "''width'' \<notin> fst ` set (rewrite_attributes src cls attrs)" by auto
  have "''height'' \<notin> fst ` set ?b" by (rule delete_notin_dom)
  with keys show "''height'' \<notin> fst ` set (rewrite_attributes src cls attrs)" by auto
qed


lemma image_fileName_empty: "image_fileName [] = []"
  by code_simp

lemma rewritten_image:
  assumes "i < length (querySelectorAll ''img'' root)"
  shows "written_attribute ''src'' (querySelectorAll ''img'' (map (rewrite_images decode) root) ! i)
           = Some (''./assets/''
                   @ image_fileName (attr_or_empty decode ''src'' (querySelectorAll ''img'' root ! i)))"
    and "''width'' \<notin> fst ` set (attributes (querySelectorAll ''img'' (map (rewrite_images decode) root) ! i))"
    and "''height'' \<notin> fst ` set (attributes (querySelectorAll ''img'' (map (rewrite_images decode) root) ! i))"
proof -
  let ?e = "querySelectorAll ''img'' root ! i"
  let ?e' = "querySelectorAll ''img'' (map (rewrite_images decode) root) ! i"
  have e: "?e \<in> set (querySelectorAll ''img'' root)" using assms by simp
  have "?e' = rewrite_images decode ?e"
    using assms by (simp add: querySelectorAll_rewrite_images)
  then have a: "attributes ?e'
      = rewrite_attributes (attr_or_empty decode ''src'' ?e) (classList ?e) (attributes ?e)"
    using attributes_rewrite_img [OF e] by simp
  show "written_attribute ''src'' ?e'
           = Some (''./assets/'' @ image_fileName (attr_or_empty decode ''src'' ?e))"
    unfolding written_attribute_def a by (rule written_src_rewrite_attributes)
  show "''width'' \<notin> fst ` set (attributes ?e')"
    unfolding a by (rule no_size_rewrite_attributes)
  show "''height'' \<notin> fst ` set (attributes ?e')"
    unfolding a by (rule no_size_rewrite_attributes)
qed

subsection \<open>The fields of the result\<close>

lemma doc_html_parseDocument:
  "doc_html (parseDocument parse decode toString h d)
     = toString (map (rewrite_images decode) (parse h))"
  by (simp add: parseDocument_def Let_def)

lemma assets_parseDocument:
  "assets (parseDocument parse decode toString h d)
     = map (image_asset decode) (querySelectorAll ''img'' (parse h))
       @ map video_asset
           (filter (\<lambda>r. ref_type r = Video) (references (parseDocument parse decode toString h d)))"
  by (simp add: parseDocument_def Let_def)

lemma references_parseDocument:
  "references (parseDocument parse decode toString h d)
     = concat (map (anchor_references decode) (querySelectorAll ''a'' (parse h)))"
  by (simp add: parseDocument_def Let_def)

lemma image_asset_nth:
  assumes "i < length (querySelectorAll ''img'' (parse h))"
  shows "assets (parseDocument parse decode toString h d) ! i
           = image_asset decode (querySelectorAll ''img'' (parse h) ! i)"
  using assms by (simp add: assets_parseDocument nth_append)

lemma video_of_anchor:
  assumes "prefix ''webpubvid://'' (attr_or_empty decode ''href'' a)
           \<or> prefix ''webpubvid://'' (attr_or_empty decode ''data-video'' a)"
  shows "filter (\<lambda>r. ref_type r = Video) (anchor_references decode a)
     = [\<lparr>ref_type = Video,
         link = (if attr_or_empty decode ''data-video'' a = [] then attr_or_empty decode ''href'' a
                 else attr_or_empty decode ''data-video'' a),
         ref_text = (if trim (textContent decode a) = [] then ''Video''
                     else trim (textContent decode a))\<rparr>]"
  using assms by (auto simp: anchor_references_def Let_def)

subsection \<open>The claims about images and videos\<close>




text \<open>
  C10. For every \<open>img\<close> element without a \<open>src\<close>, or with an empty one,
  \<open>parseDocument\<close> (a total function: no input makes it fail) gives the \<open>i\<close>-th asset
  the empty file name, the element's \<open>alt\<close> as alt text and the kind image, and the
  element the \<open>src\<close> \<open>./assets/\<close>.
\<close>

theorem image_without_src:
  assumes "i < length (querySelectorAll ''img'' (parse h))"
    and "getAttribute decode ''src'' (querySelectorAll ''img'' (parse h) ! i) = None
         \<or> getAttribute decode ''src'' (querySelectorAll ''img'' (parse h) ! i) = Some []"
  shows "assets (parseDocument parse decode toString h d) ! i
           = \<lparr>fileName = [],
              altText = attr_or_empty decode ''alt'' (querySelectorAll ''img'' (parse h) ! i),
              asset_type = ImageAsset\<rparr>
       \<and> doc_html (parseDocument parse decode toString h d)
           = toString (map (rewrite_images decode) (parse h))
       \<and> written_attribute ''src'' (querySelectorAll ''img'' (map (rewrite_images decode) (parse h)) ! i)
           = Some ''./assets/''"
proof -
  let ?e = "querySelectorAll ''img'' (parse h) ! i"
  have src: "attr_or_empty decode ''src'' ?e = []"
    using assms(2) by (auto simp: attr_or_empty_def)
  show ?thesis
    using rewritten_image(1) [OF assms(1), of decode] assms(1)
    by (simp add: image_asset_nth image_asset_def src image_fileName_empty
          doc_html_parseDocument)
qed

theorem image_without_src_witness:
  "assets (parseDocument parse_html decode_basic serialize_html sample_document ''1'') ! 1
     = \<lparr>fileName = [], altText = ''B'', asset_type = ImageAsset\<rparr>
   \<and> written_attribute ''src''
       (querySelectorAll ''img'' (map (rewrite_images decode_basic) (parse_html sample_document)) ! 1)
       = Some ''./assets/''"
proof -
  have i: "1 < length (querySelectorAll ''img'' (parse_html sample_document))"
    by code_simp
  have s: "getAttribute decode_basic ''src'' (querySelectorAll ''img'' (parse_html sample_document) ! 1)
             = None
         \<or> getAttribute decode_basic ''src'' (querySelectorAll ''img'' (parse_html sample_document) ! 1)
             = Some []"
    by code_simp
  have alt: "attr_or_empty decode_basic ''alt''
               (querySelectorAll ''img'' (parse_html sample_document) ! 1) = ''B''"
    by code_simp
  from image_without_src
         [of 1 parse_html sample_document decode_basic serialize_html "''1''", OF i s]
  show ?thesis by (simp add: alt del: One_nat_def)
qed

text \<open>
  C6, as the code has it. For every anchor element whose \<open>href\<close> or \<open>data-video\<close>
  starts with \<open>webpubvid://\<close>, \<open>parseDocument\<close> emits one reference of kind video for
  it. Its link is the \<open>data-video\<close> value whenever that is not empty (also when there
  is no \<open>href\<close>), and the \<open>href\<close> value otherwise; its text is the anchor's trimmed
  text, or \<open>Video\<close> when that is empty. The assets after those of the images are the
  video references in order, each with kind video, the reference's link as file name
  and its text as alt text.
\<close>

theorem video_reference_link:
  assumes "a \<in> set (querySelectorAll ''a'' (parse h))"
    and "prefix ''webpubvid://'' (attr_or_empty decode ''href'' a)
         \<or> prefix ''webpubvid://'' (attr_or_empty decode ''data-video'' a)"
  shows "filter (\<lambda>r. ref_type r = Video) (anchor_references decode a)
           = [\<lparr>ref_type = Video,
               link = (if attr_or_empty decode ''data-video'' a = []
                       then attr_or_empty decode ''href'' a
                       else attr_or_empty decode ''data-video'' a),
               ref_text = (if trim (textContent decode a) = [] then ''Video''
                           else trim (textContent decode a))\<rparr>]
       \<and> \<lparr>ref_type = Video,
            link = (if attr_or_empty decode ''data-video'' a = []
                    then attr_or_empty decode ''href'' a
                    else attr_or_empty decode ''data-video'' a),
            ref_text = (if trim (textContent decode a) = [] then ''Video''
                        else trim (textContent decode a))\<rparr>
           \<in> set (references (parseDocument parse decode toString h d))
       \<and> \<lparr>fileName = (if attr_or_empty decode ''data-video'' a = []
                        then attr_or_empty decode ''href'' a
                        else attr_or_empty decode ''data-video'' a),
            altText = (if trim (textContent decode a) = [] then ''Video''
                       else trim (textContent decode a)),
            asset_type = VideoAsset\<rparr>
           \<in> set (assets (parseDocument parse decode toString h d))
       \<and> drop (length (querySelectorAll ''img'' (parse h)))
            (assets (parseDocument parse decode toString h d))
           = map (\<lambda>r. \<lparr>fileName = link r, altText = ref_text r, asset_type = VideoAsset\<rparr>)
               (filter (\<lambda>r. ref_type r = Video)
                  (references (parseDocument parse decode toString h d)))"
proof -
  let ?v = "\<lparr>ref_type = Video,
            link = (if attr_or_empty decode ''data-video'' a = []
                    then attr_or_empty decode ''href'' a
                    else attr_or_empty decode ''data-video'' a),
            ref_text = (if trim (textContent decode a) = [] then ''Video''
                        else trim (textContent decode a))\<rparr>"
  note one = video_of_anchor [OF assms(2)]
  then have "?v \<in> set (filter (\<lambda>r. ref_type r = Video) (anchor_references decode a))" by simp
  then have "?v \<in> set (anchor_references decode a)" by simp
  with assms(1) have r: "?v \<in> set (references (parseDocument parse decode toString h d))"
    by (auto simp: references_parseDocument)
  then have "video_asset ?v \<in> set (assets (parseDocument parse decode toString h d))"
    by (simp add: assets_parseDocument)
  then have "\<lparr>fileName = (if attr_or_empty decode ''data-video'' a = []
                        then attr_or_empty decode ''href'' a
                        else attr_or_empty decode ''data-video'' a),
            altText = (if trim (textContent decode a) = [] then ''Video''
                       else trim (textContent decode a)),
            asset_type = VideoAsset\<rparr>
           \<in> set (assets (parseDocument parse decode toString h d))"
    by (simp add: video_asset_def)
  moreover have "drop (length (querySelectorAll ''img'' (parse h)))
            (assets (parseDocument parse decode toString h d))
           = map (\<lambda>r. \<lparr>fileName = link r, altText = ref_text r, asset_type = VideoAsset\<rparr>)
               (filter (\<lambda>r. ref_type r = Video)
                  (references (parseDocument parse decode toString h d)))"
    by (simp add: assets_parseDocument video_asset_def)
  ultimately show ?thesis using one r by blast
qed

theorem video_reference_link_witness:
  "\<lparr>ref_type = Video, link = ''webpubvid://v'', ref_text = ''Video''\<rparr>
     \<in> set (references (parseDocument parse_html decode_basic serialize_html sample_document ''1''))
   \<and> \<lparr>fileName = ''webpubvid://v'', altText = ''Video'', asset_type = VideoAsset\<rparr>
     \<in> set (assets (parseDocument parse_html decode_basic serialize_html sample_document ''1''))"
proof -
  let ?a = "Element ''a'' [(''href'', ''webpubvid://h''), (''data-video'', ''webpubvid://v'')] [] []"
  have m: "?a \<in> set (querySelectorAll ''a'' (parse_html sample_document))"
    by code_simp
  have p: "prefix ''webpubvid://'' (attr_or_empty decode_basic ''href'' ?a)
         \<or> prefix ''webpubvid://'' (attr_or_empty decode_basic ''data-video'' ?a)"
    by code_simp
  have v: "attr_or_empty decode_basic ''data-video'' ?a = ''webpubvid://v''"
    and t: "trim (textContent decode_basic ?a) = []"
    by code_simp+
  from video_reference_link
         [of ?a parse_html sample_document decode_basic serialize_html "''1''", OF m p]
  show ?thesis unfolding v t by simp
qed

text \<open>C6 as stated gives the link the \<open>href\<close> value unless both attributes carry a
  value. For an anchor with a \<open>data-video\<close> and no \<open>href\<close> that is the empty string,
  but the link emitted is the \<open>data-video\<close> value.\<close>

theorem video_reference_link_counterexample:
  "parse_html data_video_only
     = [Element ''a'' [(''data-video'', ''webpubvid://v'')] [] [Text ''x'']]
   \<and> map link (references (parseDocument parse_html decode_basic serialize_html data_video_only ''1''))
       = [''webpubvid://v'']
   \<and> attr_or_empty decode_basic ''href''
       (Element ''a'' [(''data-video'', ''webpubvid://v'')] [] [Text ''x'']) = []
   \<and> map link (references (parseDocument parse_html decode_basic serialize_html data_video_only ''1''))
       \<noteq> [if attr_or_empty decode_basic ''href''
               (Element ''a'' [(''data-video'', ''webpubvid://v'')] [] [Text ''x'']) \<noteq> []
             \<and> attr_or_empty decode_basic ''data-video''
                 (Element ''a'' [(''data-video'', ''webpubvid://v'')] [] [Text ''x'']) \<noteq> []
          then attr_or_empty decode_basic ''data-video''
                 (Element ''a'' [(''data-video'', ''webpubvid://v'')] [] [Text ''x''])
          else attr_or_empty decode_basic ''href''
                 (Element ''a'' [(''data-video'', ''webpubvid://v'')] [] [Text ''x''])]"
  by code_simp

subsection \<open>Normalizing twice\<close>















end
